theory Spec2Isabelle
  imports Complex_Main "HOL-Library.Multiset"
begin

section \<open>Frequency-curve engine of \<^verbatim>\<open>analysis_service.py\<close>\<close>

text \<open>
  The development embeds \<^verbatim>\<open>AnalysisService.compute_frequency_curve\<close> with the helpers
  it calls (\<^verbatim>\<open>_fit_distribution_mom\<close>, \<^verbatim>\<open>_convert_to_python_type\<close>,
  \<^verbatim>\<open>_bootstrap_iteration_worker\<close>, \<^verbatim>\<open>Weibull\<close>, \<^verbatim>\<open>extract_params\<close>,
  \<^verbatim>\<open>validate_agg_func\<close>).

  Numbers. A float64 is a value of \<open>npfloat\<close>: a real, plus or minus infinity, or NaN.
  The result of one arithmetic operation on finite values is the exact real (no rounding
  and no underflow); a result whose magnitude exceeds the largest double becomes an
  infinity, as IEEE-754 arithmetic does; NaN compares false with everything. Quantities
  that stay inside a small fixed range by construction (probability positions between
  0.01 and 99.99, plotting positions) are computed in the reals directly.

  Libraries. scipy's \<open>fit\<close>, \<open>ppf\<close>, \<open>skew\<close> and \<open>interp1d\<close>, numpy's reductions
  \<open>mean\<close>, \<open>std\<close> and \<open>var\<close> of the series (whose rounding decides guards such as
  \<^verbatim>\<open>var_Q <= 0\<close>), the draw of \<^verbatim>\<open>RandomState(seed).choice\<close>, the seeds drawn from
  numpy's global generator, the pandas group-by and the order in which the process pool
  completes its futures are parameters of the model, collected in the record \<open>env\<close>:
  every theorem with a free \<open>E\<close> holds for all of them. Concrete runs use the environment
  \<open>example_env\<close>, whose reductions are the exact ones.
\<close>

subsection \<open>float64 values\<close>

datatype npfloat = Fin real | PInf | NInf | NaN

definition DBL_MAX :: real where
  "DBL_MAX = (2 - 1 / 2 ^ 52) * 2 ^ 1023"

definition fl :: "real \<Rightarrow> npfloat" where
  "fl r = (if DBL_MAX < r then PInf else if r < - DBL_MAX then NInf else Fin r)"

fun isfinite :: "npfloat \<Rightarrow> bool" where
  "isfinite (Fin r) = True"
| "isfinite x = False"

fun isnan :: "npfloat \<Rightarrow> bool" where
  "isnan NaN = True"
| "isnan x = False"

fun isinf :: "npfloat \<Rightarrow> bool" where
  "isinf PInf = True"
| "isinf NInf = True"
| "isinf x = False"

fun fneg :: "npfloat \<Rightarrow> npfloat" where
  "fneg (Fin r) = Fin (- r)"
| "fneg PInf = NInf"
| "fneg NInf = PInf"
| "fneg NaN = NaN"

fun fabs :: "npfloat \<Rightarrow> npfloat" where
  "fabs (Fin r) = Fin \<bar>r\<bar>"
| "fabs PInf = PInf"
| "fabs NInf = PInf"
| "fabs NaN = NaN"

fun fadd :: "npfloat \<Rightarrow> npfloat \<Rightarrow> npfloat" where
  "fadd (Fin a) (Fin b) = fl (a + b)"
| "fadd NaN y = NaN"
| "fadd x NaN = NaN"
| "fadd PInf NInf = NaN"
| "fadd NInf PInf = NaN"
| "fadd PInf y = PInf"
| "fadd NInf y = NInf"
| "fadd x PInf = PInf"
| "fadd x NInf = NInf"

definition fsub :: "npfloat \<Rightarrow> npfloat \<Rightarrow> npfloat" where
  "fsub x y = fadd x (fneg y)"

text \<open>The sign of an infinite product or quotient.\<close>

definition signed_inf :: "bool \<Rightarrow> npfloat" where
  "signed_inf positive = (if positive then PInf else NInf)"

fun fmul :: "npfloat \<Rightarrow> npfloat \<Rightarrow> npfloat" where
  "fmul (Fin a) (Fin b) = fl (a * b)"
| "fmul NaN y = NaN"
| "fmul x NaN = NaN"
| "fmul (Fin a) PInf = (if a = 0 then NaN else signed_inf (0 < a))"
| "fmul (Fin a) NInf = (if a = 0 then NaN else signed_inf (a < 0))"
| "fmul PInf (Fin b) = (if b = 0 then NaN else signed_inf (0 < b))"
| "fmul NInf (Fin b) = (if b = 0 then NaN else signed_inf (b < 0))"
| "fmul PInf PInf = PInf"
| "fmul NInf NInf = PInf"
| "fmul PInf NInf = NInf"
| "fmul NInf PInf = NInf"

text \<open>numpy division: a zero divisor gives an infinity or NaN, it does not raise.\<close>

fun fdiv :: "npfloat \<Rightarrow> npfloat \<Rightarrow> npfloat" where
  "fdiv (Fin a) (Fin b) =
     (if b = 0 then (if a = 0 then NaN else signed_inf (0 < a)) else fl (a / b))"
| "fdiv NaN y = NaN"
| "fdiv x NaN = NaN"
| "fdiv (Fin a) PInf = Fin 0"
| "fdiv (Fin a) NInf = Fin 0"
| "fdiv PInf (Fin b) = signed_inf (0 \<le> b)"
| "fdiv NInf (Fin b) = signed_inf (b < 0)"
| "fdiv x y = NaN"

fun fsqrt :: "npfloat \<Rightarrow> npfloat" where
  "fsqrt (Fin a) = (if a < 0 then NaN else Fin (sqrt a))"
| "fsqrt PInf = PInf"
| "fsqrt x = NaN"

fun flog :: "npfloat \<Rightarrow> npfloat" where
  "flog (Fin a) = (if a < 0 then NaN else if a = 0 then NInf else Fin (ln a))"
| "flog PInf = PInf"
| "flog x = NaN"

fun fexp :: "npfloat \<Rightarrow> npfloat" where
  "fexp (Fin a) = fl (exp a)"
| "fexp PInf = PInf"
| "fexp NInf = Fin 0"
| "fexp NaN = NaN"

text \<open>Comparisons: false as soon as one side is NaN.\<close>

fun flt :: "npfloat \<Rightarrow> npfloat \<Rightarrow> bool" where
  "flt (Fin a) (Fin b) = (a < b)"
| "flt NInf (Fin b) = True"
| "flt NInf PInf = True"
| "flt (Fin a) PInf = True"
| "flt x y = False"

fun fle :: "npfloat \<Rightarrow> npfloat \<Rightarrow> bool" where
  "fle (Fin a) (Fin b) = (a \<le> b)"
| "fle NaN y = False"
| "fle x NaN = False"
| "fle NInf y = True"
| "fle x PInf = True"
| "fle x y = False"

definition fgt :: "npfloat \<Rightarrow> npfloat \<Rightarrow> bool" where
  "fgt x y = flt y x"

definition fge :: "npfloat \<Rightarrow> npfloat \<Rightarrow> bool" where
  "fge x y = fle y x"

text \<open>
  Python's own \<^verbatim>\<open>float\<close> raises where numpy returns an infinity: \<^verbatim>\<open>x ** 2\<close> raises
  OverflowError when the square leaves the double range, \<^verbatim>\<open>x / y\<close> raises
  ZeroDivisionError for a zero divisor. \<open>None\<close> is the raise.
\<close>

fun py_square :: "npfloat \<Rightarrow> npfloat option" where
  "py_square (Fin a) = (if DBL_MAX < a * a then None else Some (Fin (a * a)))"
| "py_square NaN = Some NaN"
| "py_square x = Some PInf"

fun py_div :: "npfloat \<Rightarrow> npfloat \<Rightarrow> npfloat option" where
  "py_div x (Fin b) = (if b = 0 then None else Some (fdiv x (Fin b)))"
| "py_div x y = Some (fdiv x y)"

text \<open>
  Sums, means and variances in the arithmetic above, used where an array is reduced inside
  the model and as the reference reductions of concrete runs. numpy's own \<^verbatim>\<open>np.mean\<close>,
  \<^verbatim>\<open>np.std\<close> and \<^verbatim>\<open>np.var\<close> round, so the code's reductions are parameters of the
  model (see \<open>env\<close> below).
\<close>

definition fsum :: "npfloat list \<Rightarrow> npfloat" where
  "fsum xs = foldl fadd (Fin 0) xs"

definition exact_mean :: "real list \<Rightarrow> npfloat" where
  "exact_mean xs = fdiv (fsum (map Fin xs)) (Fin (real (length xs)))"

text \<open>The squared deviations from the mean, summed, over \<open>n - 1\<close>.\<close>

definition exact_var1 :: "real list \<Rightarrow> npfloat" where
  "exact_var1 xs =
     (let m = exact_mean xs;
          d = map (\<lambda>x. fsub (Fin x) m) xs
      in fdiv (fsum (map (\<lambda>y. fmul y y) d)) (Fin (real (length xs) - 1)))"

definition exact_std1 :: "real list \<Rightarrow> npfloat" where
  "exact_std1 xs = fsqrt (exact_var1 xs)"

subsection \<open>Python values\<close>

text \<open>
  A value as Python sees it: the model keeps numpy scalars (\<open>NpInt\<close>, \<open>NpFloat\<close>) apart
  from native numbers (\<open>PyInt\<close>, \<open>PyFloat\<close>), since \<^verbatim>\<open>_convert_to_python_type\<close> is
  about that difference.
\<close>

datatype pyval =
    PyNone
  | PyInt int
  | PyFloat npfloat
  | NpInt int
  | NpFloat npfloat
  | PyStr string
  | PyList "pyval list"
  | PyTuple "pyval list"
  | NpArray "pyval list"
  | PyDict "(string \<times> pyval) list"

fun convert_to_python_type :: "pyval \<Rightarrow> pyval" where
  "convert_to_python_type PyNone = PyNone"
| "convert_to_python_type (NpInt i) = PyInt i"
| "convert_to_python_type (NpFloat x) = (if isnan x \<or> isinf x then PyNone else PyFloat x)"
| "convert_to_python_type (NpArray vs) = PyList (map convert_to_python_type vs)"
| "convert_to_python_type (PyList vs) = PyList (map convert_to_python_type vs)"
| "convert_to_python_type (PyTuple vs) = PyList (map convert_to_python_type vs)"
| "convert_to_python_type (PyDict kvs) =
     PyDict (map (\<lambda>(k, v). (k, convert_to_python_type v)) kvs)"
| "convert_to_python_type (PyInt i) = PyInt i"
| "convert_to_python_type (PyFloat x) = (if isnan x \<or> isinf x then PyNone else PyFloat x)"
| "convert_to_python_type (PyStr s) = PyStr s"

text \<open>The float64 a numeric Python value stands for (NaN for anything that is no number).\<close>

fun num_of :: "pyval \<Rightarrow> npfloat" where
  "num_of (PyInt i) = Fin (real_of_int i)"
| "num_of (NpInt i) = Fin (real_of_int i)"
| "num_of (PyFloat x) = x"
| "num_of (NpFloat x) = x"
| "num_of v = NaN"

subsection \<open>The distribution registry and the libraries\<close>

datatype scipy_dist =
  gumbel_r | genextreme | genpareto | expon | lognorm | logistic | gamma | pearson3

record distribution_base =
  name :: string
  dist_impl :: scipy_dist

definition distributions :: "string \<Rightarrow> distribution_base option" where
  "distributions = map_of
     [(''gumbel'', \<lparr>name = ''Gumbel'', dist_impl = gumbel_r\<rparr>),
      (''genextreme'', \<lparr>name = ''Generalized Extreme Value'', dist_impl = genextreme\<rparr>),
      (''genpareto'', \<lparr>name = ''GPD'', dist_impl = genpareto\<rparr>),
      (''expon'', \<lparr>name = ''Exponential'', dist_impl = expon\<rparr>),
      (''lognorm'', \<lparr>name = ''Lognormal'', dist_impl = lognorm\<rparr>),
      (''logistic'', \<lparr>name = ''Logistic'', dist_impl = logistic\<rparr>),
      (''gamma'', \<lparr>name = ''Gamma'', dist_impl = gamma\<rparr>),
      (''pearson3'', \<lparr>name = ''Pearson3'', dist_impl = pearson3\<rparr>),
      (''frechet'', \<lparr>name = ''Frechet'', dist_impl = genextreme\<rparr>)]"

text \<open>
  The libraries and the environment, as parameters.
  \<^item> \<open>scipy_fit d xs\<close>: \<^verbatim>\<open>d.fit(xs)\<close>, the tuple of fitted parameters, \<open>None\<close> when it raises;
  \<^item> \<open>scipy_ppf d q ps\<close>: \<^verbatim>\<open>d.ppf(q, *ps)\<close> at one probability;
  \<^item> \<open>scipy_skew xs\<close>: \<^verbatim>\<open>scipy.stats.skew(xs, bias=False)\<close>;
  \<^item> \<open>scipy_interp1d xs ys\<close>: the linear interpolant with extrapolation, \<open>None\<close> when
    building or calling it raises;
  \<^item> \<open>rng_choice seed xs n\<close>: \<^verbatim>\<open>RandomState(seed).choice(xs, size=n, replace=True)\<close>;
  \<^item> \<open>random_seeds k\<close>: the \<open>k\<close> seeds \<^verbatim>\<open>np.random.randint(0, 2**31, size=k)\<close> draws from
    numpy's global generator;
  \<^item> \<open>pool_completion k\<close>: \<open>None\<close> when the process pool cannot be started (the
    iterations then run one after the other), otherwise the indices of the \<open>k\<close> futures in
    the order they complete;
  \<^item> \<open>groupby_agg f rows\<close>: \<^verbatim>\<open>df.groupby('Year')[col].agg(f)\<close>, after
    \<^verbatim>\<open>pd.to_numeric(..., errors='coerce')\<close>;
  \<^item> \<open>np_mean xs\<close>, \<open>np_std1 xs\<close>, \<open>np_var1 xs\<close>: \<^verbatim>\<open>float(np.mean(xs))\<close>,
    \<^verbatim>\<open>float(np.std(xs, ddof=1))\<close> and \<^verbatim>\<open>float(np.var(xs, ddof=1))\<close>, with whatever
    rounding numpy's summation has.
\<close>

record env =
  scipy_fit :: "scipy_dist \<Rightarrow> real list \<Rightarrow> pyval list option"
  scipy_ppf :: "scipy_dist \<Rightarrow> real \<Rightarrow> npfloat list \<Rightarrow> npfloat"
  scipy_skew :: "real list \<Rightarrow> npfloat"
  scipy_interp1d :: "real list \<Rightarrow> npfloat list \<Rightarrow> (real \<Rightarrow> npfloat) option"
  rng_choice :: "nat \<Rightarrow> real list \<Rightarrow> nat \<Rightarrow> real list"
  random_seeds :: "nat \<Rightarrow> nat list"
  pool_completion :: "nat \<Rightarrow> nat list option"
  groupby_agg :: "string \<Rightarrow> (int \<times> npfloat) list \<Rightarrow> npfloat list"
  np_mean :: "real list \<Rightarrow> npfloat"
  np_std1 :: "real list \<Rightarrow> npfloat"
  np_var1 :: "real list \<Rightarrow> npfloat"

subsection \<open>Errors and the data service\<close>

datatype err_detail =
    InvalidAggFunc
  | UnsupportedDistribution
  | InvalidMethod
  | MissingColumn
  | DataProcessingError
  | EmptyAfterFiltering
  | InsufficientData nat
  | FitFailed
  | ServerError

datatype error = HTTPException nat err_detail

text \<open>
  The data frame held by \<^verbatim>\<open>DataService\<close>: its column names, its number of rows, the
  \<^verbatim>\<open>Year\<close> column, and each column read through \<^verbatim>\<open>pd.to_numeric(errors='coerce')\<close>
  (NaN for a cell that is no number).
\<close>

record data_frame =
  columns :: "string list"
  nrows :: nat
  Year :: "int list"
  numeric_column :: "string \<Rightarrow> npfloat list"

record data_service =
  data :: "data_frame option"
  main_column :: "string option"

definition df_empty :: "data_frame \<Rightarrow> bool" where
  "df_empty df = (columns df = [] \<or> nrows df = 0)"

definition validate_agg_func :: "string \<Rightarrow> error + unit" where
  "validate_agg_func agg_func =
     (if agg_func \<notin> set [''max'', ''min'', ''sum'', ''mean'']
      then Inl (HTTPException 400 InvalidAggFunc) else Inr ())"

definition valid_methods :: "string list" where
  "valid_methods = [''auto'', ''mom'', ''mle'']"

definition extract_params :: "pyval list \<Rightarrow> (string \<times> pyval) list option" where
  "extract_params params =
     (if length params = 2
        then Some [(''shape'', PyNone), (''loc'', params ! 0), (''scale'', params ! 1)]
      else if length params = 3
        then Some [(''shape'', params ! 0), (''loc'', params ! 1), (''scale'', params ! 2)]
      else if length params < 2 then None
      else Some [(''shape'', PyTuple (butlast (butlast params))),
                 (''loc'', last (butlast params)), (''scale'', last params)])"

text \<open>\<^verbatim>\<open>year_counts.max()\<close>: how often the most frequent year occurs.\<close>

definition year_counts_max :: "int list \<Rightarrow> nat" where
  "year_counts_max ys = foldr max (map (count_list ys) ys) 0"

text \<open>
  The first \<^verbatim>\<open>try\<close> block of \<^verbatim>\<open>compute_frequency_curve\<close>: the yearly series, restricted to
  finite values. Every exception in it becomes a 400 (\<open>None\<close> here): a frame without a
  \<^verbatim>\<open>Year\<close> column (KeyError), and an array left empty by the filter, on which
  \<^verbatim>\<open>np.min\<close> raises while the log line is formatted.
\<close>

definition aggregated_series ::
  "env \<Rightarrow> data_frame \<Rightarrow> string \<Rightarrow> string \<Rightarrow> npfloat list option" where
  "aggregated_series E df main_col agg_func =
     (if ''Year'' \<notin> set (columns df) then None
      else
        let Qmax = (if year_counts_max (Year df) = 1
                    then numeric_column df main_col
                    else groupby_agg E agg_func (zip (Year df) (numeric_column df main_col)));
            Qmax = filter isfinite Qmax
        in if Qmax = [] then None else Some Qmax)"

text \<open>\<^verbatim>\<open>Qmax[np.isfinite(Qmax) & (Qmax > 0)]\<close>, read as reals.\<close>

definition valid_values :: "npfloat list \<Rightarrow> real list" where
  "valid_values Qmax = concat (map (\<lambda>x. case x of Fin r \<Rightarrow> (if 0 < r then [r] else []) | _ \<Rightarrow> []) Qmax)"

subsection \<open>Method of moments\<close>

text \<open>
  \<^verbatim>\<open>_fit_distribution_mom\<close> returns a tuple, returns \<^verbatim>\<open>None\<close>, or raises (Python's
  \<^verbatim>\<open>mean_Q ** 2\<close> and \<^verbatim>\<open>/\<close> on native floats). The constructors of the tuple's entries
  follow the Python types: an expression with a numpy operand (\<^verbatim>\<open>np.sqrt(6)\<close>,
  \<^verbatim>\<open>np.exp\<close>) is a numpy scalar, one over native floats only is native.
\<close>

datatype mom_result = MomRaises | MomNone | MomParams "pyval list"

text \<open>The constant \<^verbatim>\<open>0.57722\<close> the code uses for the Euler-Mascheroni constant.\<close>

definition euler_gamma :: real where "euler_gamma = 57722 / 100000"

definition mom_gumbel :: "npfloat \<Rightarrow> npfloat \<Rightarrow> mom_result" where
  "mom_gumbel mean_Q std_Q =
     (let scale = fdiv (fmul std_Q (Fin (sqrt 6))) (Fin pi);
          loc = fsub mean_Q (fmul (Fin euler_gamma) scale)
      in MomParams [NpFloat loc, NpFloat scale])"

definition mom_lognorm :: "npfloat \<Rightarrow> npfloat \<Rightarrow> mom_result" where
  "mom_lognorm mean_Q var_Q =
     (case py_square mean_Q of None \<Rightarrow> MomRaises | Some mean_sq \<Rightarrow>
      case py_div var_Q mean_sq of None \<Rightarrow> MomRaises | Some cv_squared \<Rightarrow>
      if fle cv_squared (Fin 0) then MomNone
      else
        let s = fsqrt (flog (fadd (Fin 1) cv_squared));
            mu = fsub (flog mean_Q) (fdiv (fmul s s) (Fin 2))
        in MomParams [NpFloat s, PyInt 0, NpFloat (fexp mu)])"

definition mom_gamma :: "npfloat \<Rightarrow> npfloat \<Rightarrow> mom_result" where
  "mom_gamma mean_Q var_Q =
     (if fle mean_Q (Fin 0) \<or> fle var_Q (Fin 0) then MomNone
      else
        case py_square mean_Q of None \<Rightarrow> MomRaises | Some mean_sq \<Rightarrow>
        case py_div mean_sq var_Q of None \<Rightarrow> MomRaises | Some shape \<Rightarrow>
        case py_div var_Q mean_Q of None \<Rightarrow> MomRaises | Some scale \<Rightarrow>
        MomParams [PyFloat shape, PyInt 0, PyFloat scale])"

text \<open>Every path of the Pearson III branch ends in \<^verbatim>\<open>return None\<close>.\<close>

definition mom_pearson3 :: "real list \<Rightarrow> npfloat \<Rightarrow> npfloat \<Rightarrow> mom_result" where
  "mom_pearson3 Qmax mean_Q std_Q =
     (let n = length Qmax in
      if n < 3 then MomNone
      else
        let skew = (if fgt std_Q (Fin 0)
                    then fdiv (fsum (map (\<lambda>x. let z = fdiv (fsub (Fin x) mean_Q) std_Q
                                                in fmul (fmul z z) z) Qmax))
                              (Fin (real n))
                    else Fin 0)
        in if flt (fabs skew) (Fin (1 / 10 ^ 6)) then MomNone
           else
             let shape = (if fgt (fabs skew) (Fin (1 / 10 ^ 6))
                          then Some (fdiv (Fin 2) skew) else None)
             in if shape = None \<or> fgt (fabs (the shape)) (Fin 100) then MomNone
                else MomNone)"

definition mom_logistic :: "npfloat \<Rightarrow> npfloat \<Rightarrow> mom_result" where
  "mom_logistic mean_Q std_Q =
     (let scale = fdiv (fmul std_Q (Fin (sqrt 3))) (Fin pi);
          loc = mean_Q
      in MomParams [PyFloat loc, NpFloat scale])"

definition mom_expon :: "npfloat \<Rightarrow> mom_result" where
  "mom_expon mean_Q =
     (if fle mean_Q (Fin 0) then MomNone
      else MomParams [PyInt 0, PyFloat mean_Q])"

definition fit_distribution_mom :: "env \<Rightarrow> string \<Rightarrow> real list \<Rightarrow> mom_result" where
  "fit_distribution_mom E distribution_name Qmax =
     (let mean_Q = np_mean E Qmax;
          std_Q = np_std1 E Qmax;
          var_Q = np_var1 E Qmax
      in if distribution_name = ''gumbel'' then mom_gumbel mean_Q std_Q
         else if distribution_name = ''lognorm'' then mom_lognorm mean_Q var_Q
         else if distribution_name = ''gamma'' then mom_gamma mean_Q var_Q
         else if distribution_name = ''pearson3'' then mom_pearson3 Qmax mean_Q std_Q
         else if distribution_name = ''logistic'' then mom_logistic mean_Q std_Q
         else if distribution_name = ''expon'' then mom_expon mean_Q
         else MomNone)"

subsection \<open>Parameter estimation\<close>

text \<open>
  The \<^verbatim>\<open>try\<close> block that fits the parameters. \<open>None\<close> is every way it ends in the
  400 "cannot fit": an exception of the moments code or of \<^verbatim>\<open>dist.fit\<close>, an empty
  tuple, a parameter that is not finite.
\<close>

definition use_mom :: "string \<Rightarrow> string \<Rightarrow> bool" where
  "use_mom method distribution_name =
     (if method = ''auto'' then distribution_name = ''gumbel''
      else if method = ''mom'' then True
      else False)"

definition validate_params :: "pyval list \<Rightarrow> pyval list option" where
  "validate_params params =
     (if length params = 0 then None
      else if \<exists>p \<in> set params. \<not> isfinite (num_of p) then None
      else Some params)"

definition fit_parameters ::
  "env \<Rightarrow> scipy_dist \<Rightarrow> string \<Rightarrow> string \<Rightarrow> real list \<Rightarrow> pyval list option" where
  "fit_parameters E d distribution_name method Qmax =
     (if use_mom method distribution_name then
        (case fit_distribution_mom E distribution_name Qmax of
           MomRaises \<Rightarrow> None
         | MomParams params \<Rightarrow> validate_params params
         | MomNone \<Rightarrow>
             (case scipy_fit E d Qmax of
                None \<Rightarrow> None
              | Some params \<Rightarrow> validate_params params))
      else
        (case scipy_fit E d Qmax of
           None \<Rightarrow> None
         | Some params \<Rightarrow> validate_params params))"

subsection \<open>Probability positions of the curve\<close>

definition min_p :: real where "min_p = 1 / 100"
definition max_p :: real where "max_p = 9999 / 100"
definition transition_start :: real where "transition_start = 5"
definition transition_end :: real where "transition_end = 25"
definition transition_start_pos :: real where "transition_start_pos = 3 / 10"
definition transition_end_pos :: real where "transition_end_pos = 6 / 10"

text \<open>\<^verbatim>\<open>np.clip(x, lo, hi)\<close> is \<^verbatim>\<open>minimum(maximum(x, lo), hi)\<close>.\<close>

definition clip :: "real \<Rightarrow> real \<Rightarrow> real \<Rightarrow> real" where
  "clip x lo hi = min (max x lo) hi"

text \<open>The 15 Newton steps on the cubic Hermite blend, for one point of the transition zone.\<close>

fun newton :: "nat \<Rightarrow> real \<Rightarrow> real \<Rightarrow> real \<Rightarrow> real \<Rightarrow> real" where
  "newton 0 m0 m1 t s = s"
| "newton (Suc k) m0 m1 t s =
     (let s2 = s * s;
          s3 = s2 * s;
          h = (s3 - 2 * s2 + s) * m0 + (- 2 * s3 + 3 * s2) + (s3 - s2) * m1;
          dh = (3 * s2 - 4 * s + 1) * m0 + (- 6 * s2 + 6 * s) + (3 * s2 - 2 * s) * m1;
          f = h - t;
          s' = (if \<bar>dh\<bar> > 1 / 10 ^ 10 then s - f / dh else s)
      in newton k m0 m1 t (clip s' 0 1))"

definition inverse_mixed_scale :: "real \<Rightarrow> real" where
  "inverse_mixed_scale x =
     (let x_clamped = clip x 0 1;
          log_min = log 10 min_p;
          log_max = log 10 transition_start;
          log_derivative =
            transition_start_pos / ((transition_start * ln 10) * (log_max - log_min));
          linear_derivative = (1 - transition_end_pos) / (max_p - transition_end);
          transition_range = transition_end - transition_start;
          m0 = log_derivative * transition_range / (transition_end_pos - transition_start_pos);
          m1 = linear_derivative * transition_range / (transition_end_pos - transition_start_pos)
      in if x_clamped \<le> transition_start_pos then
           (let t = x_clamped / transition_start_pos;
                log_p = log_min + t * (log_max - log_min)
            in 10 powr log_p)
         else if x_clamped \<ge> transition_end_pos then
           (let t = (x_clamped - transition_end_pos) / (1 - transition_end_pos)
            in transition_end + t * (max_p - transition_end))
         else
           (let t = (x_clamped - transition_start_pos) / (transition_end_pos - transition_start_pos);
                t = clip t 0 1;
                s = newton 15 m0 m1 t t
            in transition_start + s * (transition_end - transition_start)))"

text \<open>\<^verbatim>\<open>np.linspace(0.0, 1.0, num=k)\<close>.\<close>

definition linspace01 :: "nat \<Rightarrow> real list" where
  "linspace01 k = map (\<lambda>i. real i / real (k - 1)) [0..<k]"

text \<open>
  \<^verbatim>\<open>p[np.concatenate(([True], np.diff(p) > 1e-6))]\<close>: the first entry, and every entry
  more than \<open>1e-6\<close> above the entry before it.
\<close>

fun remove_close :: "real list \<Rightarrow> real list" where
  "remove_close [] = []"
| "remove_close (x # xs) =
     x # map snd (filter (\<lambda>(a, b). b - a > 1 / 10 ^ 6) (zip (x # xs) xs))"

definition num_points :: nat where "num_points = 600"

definition p_percent_positions :: "real list" where
  "p_percent_positions =
     (let mixed_scale_positions = linspace01 num_points;
          p_percent_fixed = map inverse_mixed_scale mixed_scale_positions;
          p_percent_fixed = map (\<lambda>p. clip p min_p max_p) p_percent_fixed;
          p_percent_fixed = sort p_percent_fixed
      in remove_close p_percent_fixed)"

subsection \<open>Theoretical quantiles\<close>

text \<open>\<^verbatim>\<open>xs[mask]\<close> for a boolean mask as long as the array.\<close>

definition select_mask :: "'a list \<Rightarrow> bool list \<Rightarrow> 'a list" where
  "select_mask xs bs = map fst (filter snd (zip xs bs))"

definition use_direct_formula :: "pyval list \<Rightarrow> npfloat \<Rightarrow> npfloat \<Rightarrow> bool" where
  "use_direct_formula params mean_Q std_Q =
     (if length params = 2 then
        (let loc_fitted = num_of (params ! 0);
             scale_fitted = num_of (params ! 1);
             std_from_params = fdiv (fmul scale_fitted (Fin pi)) (Fin (sqrt 6));
             mean_from_params = fadd loc_fitted (fmul scale_fitted (Fin euler_gamma))
         in flt (fabs (fsub mean_from_params mean_Q)) (Fin (1 / 10 ^ 6)) \<and>
            flt (fabs (fsub std_from_params std_Q)) (Fin (1 / 10 ^ 6)))
      else False)"

text \<open>The closed form \<open>Q = mean + std * K\<close> at one position (NaN outside \<open>0 < p < 1\<close>).\<close>

definition gumbel_direct :: "npfloat \<Rightarrow> npfloat \<Rightarrow> real \<Rightarrow> npfloat" where
  "gumbel_direct mean_Q std_Q p_percent =
     (let p = p_percent / 100;
          valid = (0 < p \<and> p < 1);
          y = (if valid then - ln (- ln (1 - p)) else 0);
          K = (y - euler_gamma) * sqrt 6 / pi
      in if valid then fadd mean_Q (fmul std_Q (Fin K)) else NaN)"

definition ppf_curve :: "env \<Rightarrow> scipy_dist \<Rightarrow> pyval list \<Rightarrow> real list \<Rightarrow> npfloat list" where
  "ppf_curve E d params p_percent = map (\<lambda>p. scipy_ppf E d (1 - p / 100) (map num_of params)) p_percent"

text \<open>
  The positions and quantiles that reach the loop building the curve: the pair
  (\<^verbatim>\<open>p_percent_fixed\<close>, \<^verbatim>\<open>Q_theoretical\<close>) after the branch for the distribution.
  \<open>None\<close> is the exception of the branch for the other distributions: after a filter
  that removed something, the log line takes \<^verbatim>\<open>np.min(p_percent_fixed)\<close>, which raises
  ValueError on an array the filter left empty. The Gumbel branches have no such line.
\<close>

definition theoretical_quantiles ::
  "env \<Rightarrow> scipy_dist \<Rightarrow> string \<Rightarrow> pyval list \<Rightarrow> npfloat \<Rightarrow> npfloat \<Rightarrow> real list
     \<Rightarrow> (real list \<times> npfloat list) option" where
  "theoretical_quantiles E d distribution_name params mean_Q std_Q p_percent_fixed =
     (if distribution_name = ''gumbel'' then
        (if use_direct_formula params mean_Q std_Q then
           Some (p_percent_fixed, map (gumbel_direct mean_Q std_Q) p_percent_fixed)
         else
           (let Q_theoretical = ppf_curve E d params p_percent_fixed;
                valid_mask = map (\<lambda>q. isfinite q \<and> fgt q (Fin 0)) Q_theoretical
            in if \<not> list_all id valid_mask
               then Some (select_mask p_percent_fixed valid_mask,
                          select_mask Q_theoretical valid_mask)
               else Some (p_percent_fixed, Q_theoretical)))
      else
        (let Q_theoretical = ppf_curve E d params p_percent_fixed;
             valid_mask = map (\<lambda>q. (isfinite q \<and> fgt q (Fin 0)) \<and> flt q (Fin (10 ^ 12)))
                            Q_theoretical
         in if \<not> list_all id valid_mask
            then (if select_mask p_percent_fixed valid_mask = [] then None
                  else Some (select_mask p_percent_fixed valid_mask,
                             select_mask Q_theoretical valid_mask))
            else Some (p_percent_fixed, Q_theoretical)))"

subsection \<open>Curve points\<close>

datatype point = Point (P_percent: pyval) (Q: pyval)

text \<open>
  The loop over \<^verbatim>\<open>zip(p_percent_fixed, Q_theoretical)\<close>: it skips a quantile that is not
  finite or is \<open>1e12\<close> or more, clamps with Python's \<^verbatim>\<open>max(0, q)\<close> (the integer \<open>0\<close>
  unless \<open>q > 0\<close>) and counts the negative ones. The result is the list of points and
  \<^verbatim>\<open>num_clamped\<close>.
\<close>

fun curve_loop :: "(real \<times> npfloat) list \<Rightarrow> point list \<times> nat" where
  "curve_loop [] = ([], 0)"
| "curve_loop ((p, q) # rest) =
     (let (points, num_clamped) = curve_loop rest in
      if \<not> isfinite q \<or> fge q (Fin (10 ^ 12)) then (points, num_clamped)
      else
        (let q_clamped = (if fgt q (Fin 0) then NpFloat q else PyInt 0)
         in (Point (convert_to_python_type (NpFloat (Fin p))) (convert_to_python_type q_clamped)
               # points,
             if flt q (Fin 0) then Suc num_clamped else num_clamped)))"

text \<open>The pairs of position and quantile the loop does not skip.\<close>

definition kept :: "real \<times> npfloat \<Rightarrow> bool" where
  "kept pq = (isfinite (snd pq) \<and> \<not> fge (snd pq) (Fin (10 ^ 12)))"

text \<open>The point the loop appends for a pair it keeps.\<close>

definition curve_point :: "real \<Rightarrow> npfloat \<Rightarrow> point" where
  "curve_point p q =
     Point (convert_to_python_type (NpFloat (Fin p)))
           (convert_to_python_type (if fgt q (Fin 0) then NpFloat q else PyInt 0))"

text \<open>The real behind a float key (keys of the curves are finite floats).\<close>

definition key_of :: "pyval \<Rightarrow> real" where
  "key_of v = (case num_of v of Fin r \<Rightarrow> r | _ \<Rightarrow> 0)"

definition theoretical_curve_of :: "real list \<times> npfloat list \<Rightarrow> point list \<times> nat" where
  "theoretical_curve_of PQ =
     (let (theoretical_curve, num_clamped) = curve_loop (zip (fst PQ) (snd PQ))
      in (sort_key (\<lambda>item. key_of (P_percent item)) theoretical_curve, num_clamped))"

text \<open>The Weibull plotting positions \<open>100 i / (n + 1)\<close>, as the code computes them.\<close>

definition Weibull :: "real list \<Rightarrow> real list" where
  "Weibull data_values =
     (let n = length data_values
      in map (\<lambda>i. (real i / real (n + 1)) * 100) [1..<n + 1])"

definition empirical_points_of :: "real list \<Rightarrow> point list" where
  "empirical_points_of Qmax =
     (let Q_sorted = rev (sort Qmax);
          n = length Q_sorted;
          p_empirical = map (\<lambda>m. real m / real (n + 1)) [1..<n + 1];
          p_percent_empirical = map (\<lambda>p. p * 100) p_empirical
      in map (\<lambda>(p, q). Point (convert_to_python_type (NpFloat (Fin p)))
                              (convert_to_python_type (NpFloat (Fin q))))
             (zip p_percent_empirical Q_sorted))"

subsection \<open>Statistics and quality warnings\<close>

text \<open>Python's \<^verbatim>\<open>round(x, ndigits)\<close>: to the nearest, ties to even.\<close>

definition round_half_even :: "real \<Rightarrow> int" where
  "round_half_even x =
     (let f = \<lfloor>x\<rfloor>; r = x - of_int f
      in if r < 1 / 2 then f else if 1 / 2 < r then f + 1 else if even f then f else f + 1)"

fun py_round :: "pyval \<Rightarrow> nat \<Rightarrow> pyval" where
  "py_round (PyFloat (Fin r)) ndigits =
     PyFloat (Fin (of_int (round_half_even (r * 10 ^ ndigits)) / 10 ^ ndigits))"
| "py_round v ndigits = v"

datatype quality_warning =
    HighVariability npfloat
  | StrongSkew npfloat
  | SmallSample nat
  | ClampedNegative nat
  | ImplausibleFit string npfloat real

definition coefficient_of_variation :: "npfloat \<Rightarrow> npfloat \<Rightarrow> pyval" where
  "coefficient_of_variation mean_Q std_Q =
     (if mean_Q \<noteq> Fin 0 then PyFloat (fdiv std_Q mean_Q) else PyInt 0)"

text \<open>
  The validity check \<open>Q(P = 1%) > Q_max\<close>: the warning is appended when the quantile is
  finite, below ten times the observed maximum, and below the maximum.
\<close>

definition validity_warning ::
  "env \<Rightarrow> scipy_dist \<Rightarrow> string \<Rightarrow> pyval list \<Rightarrow> real list \<Rightarrow> quality_warning list" where
  "validity_warning E d distribution_name params Qmax =
     (let Q_1pct = scipy_ppf E d (1 - 1 / 100) (map num_of params);
          Q_max_val = Max (set Qmax)
      in if isfinite Q_1pct \<and> flt Q_1pct (fmul (Fin Q_max_val) (Fin 10)) then
           (if flt Q_1pct (Fin Q_max_val)
            then [ImplausibleFit distribution_name Q_1pct Q_max_val] else [])
         else [])"

definition quality_warnings_of ::
  "env \<Rightarrow> scipy_dist \<Rightarrow> string \<Rightarrow> pyval list \<Rightarrow> real list \<Rightarrow> pyval \<Rightarrow> npfloat \<Rightarrow> nat
     \<Rightarrow> quality_warning list" where
  "quality_warnings_of E d distribution_name params Qmax cv cs num_clamped =
     (let n = length Qmax in
      (if fgt (num_of cv) (Fin 1) then [HighVariability (num_of cv)] else []) @
      (if fgt (fabs cs) (Fin (5 / 2)) then [StrongSkew cs] else []) @
      (if n < 30 then [SmallSample n] else []) @
      (if num_clamped > 0 then [ClampedNegative num_clamped] else []) @
      validity_warning E d distribution_name params Qmax)"

definition statistics_of :: "npfloat \<Rightarrow> npfloat \<Rightarrow> pyval \<Rightarrow> npfloat \<Rightarrow> nat \<Rightarrow> (string \<times> pyval) list" where
  "statistics_of mean_Q std_Q cv cs n =
     [(''mean'', convert_to_python_type (py_round (PyFloat mean_Q) 2)),
      (''std'', convert_to_python_type (py_round (PyFloat std_Q) 2)),
      (''cv'', convert_to_python_type (py_round cv 3)),
      (''cs'', convert_to_python_type (py_round (PyFloat cs) 3)),
      (''n'', convert_to_python_type (PyInt (int n)))]"

subsection \<open>One bootstrap iteration\<close>

definition dist_map :: "string \<Rightarrow> scipy_dist option" where
  "dist_map = map_of
     [(''gumbel'', gumbel_r), (''lognorm'', lognorm), (''gamma'', gamma),
      (''logistic'', logistic), (''expon'', expon), (''genextreme'', genextreme),
      (''genpareto'', genpareto), (''frechet'', genextreme), (''pearson3'', pearson3)]"

text \<open>
  \<^verbatim>\<open>np.where(np.isfinite(Q) & (Q > 0) & (Q < absolute_max), Q, np.nan)\<close>: an entry of the
  result is a finite real or NaN, written \<open>Some r\<close> or \<open>None\<close>.
\<close>

definition keep_valid :: "npfloat \<Rightarrow> npfloat \<Rightarrow> real option" where
  "keep_valid absolute_max q =
     (case q of
        Fin r \<Rightarrow> (if fgt q (Fin 0) \<and> flt q absolute_max then Some r else None)
      | _ \<Rightarrow> None)"

definition is_outlier :: "string \<Rightarrow> real option \<Rightarrow> npfloat \<Rightarrow> bool" where
  "is_outlier distribution_name bq ref =
     (let max_ratio = (if distribution_name = ''lognorm'' then 8 else 10 :: real);
          min_ratio = (if distribution_name = ''gumbel'' then 5 / 1000
                       else if distribution_name = ''lognorm'' then 15 / 100
                       else 5 / 100 :: real)
      in case bq of
           None \<Rightarrow> False
         | Some b \<Rightarrow>
             if isfinite ref \<and> fgt ref (Fin 0) then
               (let ratio = fdiv (Fin b) ref
                in flt ratio (Fin min_ratio) \<or> fgt ratio (Fin max_ratio))
             else False)"

definition bootstrap_iteration_worker ::
  "env \<Rightarrow> nat \<Rightarrow> real list \<Rightarrow> nat \<Rightarrow> string \<Rightarrow> real list \<Rightarrow> npfloat list \<Rightarrow> npfloat
     \<Rightarrow> real option list option" where
  "bootstrap_iteration_worker E seed Qmax n distribution_name p_values_for_ci
       Q_theoretical_ref absolute_max =
     (case dist_map distribution_name of
        None \<Rightarrow> None
      | Some d \<Rightarrow>
          let bootstrap_sample = rng_choice E seed Qmax n in
          case scipy_fit E d bootstrap_sample of
            None \<Rightarrow> None
          | Some bootstrap_params \<Rightarrow>
              let bootstrap_Q = map (\<lambda>p. scipy_ppf E d (1 - p) (map num_of bootstrap_params))
                                    p_values_for_ci;
                  bootstrap_Q = map (keep_valid absolute_max) bootstrap_Q;
                  outliers = length (filter (\<lambda>(b, r). is_outlier distribution_name b r)
                                       (zip bootstrap_Q Q_theoretical_ref));
                  finite_count = length (filter (\<lambda>b. b \<noteq> None) bootstrap_Q);
                  outlier_threshold = (if distribution_name = ''gumbel'' then 30 / 100
                                       else 10 / 100 :: real);
                  outlier_ratio = (if finite_count > 0
                                   then real outliers / real finite_count else 0)
              in if outlier_ratio > outlier_threshold then None else Some bootstrap_Q)"

subsection \<open>Percentiles and the corrections of the band\<close>

text \<open>
  \<^verbatim>\<open>np.nanpercentile(a, q, axis=0, method='linear')\<close>: per column, the NaN entries are
  dropped, the rest sorted, and the value at the fractional index \<open>(m - 1) q / 100\<close> is
  interpolated between its two neighbours; an all-NaN column gives NaN.
\<close>

definition percentile_linear :: "real list \<Rightarrow> real \<Rightarrow> npfloat" where
  "percentile_linear xs q =
     (let v = sort xs; m = length v in
      if m = 0 then NaN
      else
        let h = real (m - 1) * q / 100;
            lo = nat \<lfloor>h\<rfloor>;
            hi = min (lo + 1) (m - 1)
        in Fin (v ! lo + (h - real lo) * (v ! hi - v ! lo)))"

definition column :: "real option list list \<Rightarrow> nat \<Rightarrow> real list" where
  "column rows j = concat (map (\<lambda>r. case r ! j of Some x \<Rightarrow> [x] | None \<Rightarrow> []) rows)"

definition nanpercentile :: "real option list list \<Rightarrow> nat \<Rightarrow> real \<Rightarrow> npfloat list" where
  "nanpercentile rows ncols q = map (\<lambda>j. percentile_linear (column rows j) q) [0..<ncols]"

text \<open>
  The width floor of the Gumbel band at one position: the triple is the theoretical
  quantile, the lower and the upper bound; the result is the corrected pair of bounds.
\<close>

definition width_floor :: "npfloat \<Rightarrow> npfloat \<Rightarrow> npfloat \<Rightarrow> npfloat \<times> npfloat" where
  "width_floor theo lower_i upper_i =
     (if fgt theo (Fin 0) \<and> isfinite theo \<and> isfinite lower_i \<and> isfinite upper_i then
        (let target_lower = fmul theo (Fin (85 / 100));
             target_upper = fmul theo (Fin (115 / 100));
             target_width = fmul theo (Fin (30 / 100));
             current_width = fsub upper_i lower_i;
             current_relative_width = fmul (fdiv current_width theo) (Fin 100)
         in if flt current_relative_width (Fin 30) then
              (let lower1 = (if fgt lower_i target_lower then target_lower else lower_i);
                   upper1 = (if flt upper_i target_upper then target_upper else upper_i);
                   current_width_after = fsub upper1 lower1
               in if flt current_width_after target_width then
                    (let center = fdiv (fadd lower1 upper1) (Fin 2)
                     in (fsub center (fdiv target_width (Fin 2)),
                         fadd center (fdiv target_width (Fin 2))))
                  else (lower1, upper1))
            else (lower_i, upper_i))
      else (lower_i, upper_i))"

text \<open>The inversion correction: the two bounds are exchanged where \<open>lower > upper\<close>.\<close>

definition swap_inverted :: "npfloat \<times> npfloat \<Rightarrow> npfloat \<times> npfloat" where
  "swap_inverted lu = (if fgt (fst lu) (snd lu) then (snd lu, fst lu) else lu)"

text \<open>The zone of a position, against the range of the empirical plotting positions.\<close>

definition is_interpolation :: "real \<Rightarrow> real \<Rightarrow> real \<Rightarrow> bool" where
  "is_interpolation min_p_empirical max_p_empirical p =
     (p \<ge> min_p_empirical \<and> p \<le> max_p_empirical)"

definition is_near_extrapolation :: "real \<Rightarrow> real \<Rightarrow> real \<Rightarrow> bool" where
  "is_near_extrapolation min_p_empirical max_p_empirical p =
     ((p \<ge> min_p_empirical * (1 / 2) \<and> p < min_p_empirical) \<or>
      (p > max_p_empirical \<and> p \<le> max_p_empirical * (3 / 2)))"

definition is_far_extrapolation :: "real \<Rightarrow> real \<Rightarrow> real \<Rightarrow> bool" where
  "is_far_extrapolation min_p_empirical max_p_empirical p =
     (p < min_p_empirical * (1 / 2) \<or> p > max_p_empirical * (3 / 2))"

text \<open>
  An array of ones overwritten zone by zone, in the order interpolation, near, far: the
  last assignment that applies wins.
\<close>

definition zone_factor :: "real \<Rightarrow> real \<Rightarrow> real \<Rightarrow> real \<Rightarrow> real \<Rightarrow> real \<Rightarrow> real" where
  "zone_factor lo_e hi_e f_interp f_near f_far p =
     (if is_far_extrapolation lo_e hi_e p then f_far
      else if is_near_extrapolation lo_e hi_e p then f_near
      else if is_interpolation lo_e hi_e p then f_interp
      else 1)"

text \<open>
  The plausibility filter at one position: the new value of \<^verbatim>\<open>valid_mask[i]\<close>.
\<close>

definition plausible ::
  "string \<Rightarrow> real \<Rightarrow> real \<Rightarrow> real \<Rightarrow> npfloat \<Rightarrow> npfloat \<Rightarrow> npfloat \<Rightarrow> bool \<Rightarrow> bool" where
  "plausible distribution_name lo_e hi_e p theo lower_i upper_i valid =
     (let max_width_factor = zone_factor lo_e hi_e (5 / 2) 6 8 p;
          max_upper_factor = zone_factor lo_e hi_e 4 8 10 p;
          min_lower_factor = (if distribution_name = ''gumbel'' then 2 / 100
                              else if distribution_name = ''lognorm'' then 5 / 100
                              else 3 / 100 :: real)
      in if valid \<and> isfinite theo \<and> fgt theo (Fin 0) then
           (let relative_width = fmul (fdiv (fsub upper_i lower_i) theo) (Fin 100)
            in if fgt relative_width (Fin (max_width_factor * 100)) then False
               else if fgt upper_i (fmul theo (Fin max_upper_factor)) then False
               else if flt lower_i (fmul theo (Fin min_lower_factor)) then False
               else valid)
         else valid)"

subsection \<open>Assembling the band\<close>

text \<open>
  A point of the band while it is assembled: the pair of \<^verbatim>\<open>P_percent\<close> and \<^verbatim>\<open>Q\<close>,
  both native floats. A dict built from a list of points keeps, for a repeated key, the
  last value.
\<close>

type_synonym ci_point = "real \<times> npfloat"

definition dict_of :: "ci_point list \<Rightarrow> real \<Rightarrow> npfloat option" where
  "dict_of points = map_of (rev points)"

definition common_keys :: "ci_point list \<Rightarrow> ci_point list \<Rightarrow> real list" where
  "common_keys lower_points upper_points =
     sorted_list_of_set (fst ` set lower_points \<inter> fst ` set upper_points)"

text \<open>The points of the lower and of the upper bound read back from the two dicts.\<close>

definition points_at ::
  "ci_point list \<Rightarrow> ci_point list \<Rightarrow> real list \<Rightarrow> ci_point list \<times> ci_point list" where
  "points_at lower_points upper_points ps =
     (map (\<lambda>p. (p, the (dict_of lower_points p))) ps,
      map (\<lambda>p. (p, the (dict_of upper_points p))) ps)"

text \<open>
  \<^verbatim>\<open>temp_lower\<close> and \<^verbatim>\<open>temp_upper\<close>: the common positions at which
  \<open>lower < upper\<close>, \<open>lower \<ge> 0\<close> and both are finite.
\<close>

definition temp_points ::
  "ci_point list \<Rightarrow> ci_point list \<Rightarrow> ci_point list \<times> ci_point list" where
  "temp_points lower_points upper_points =
     (let lower_dict = dict_of lower_points;
          upper_dict = dict_of upper_points;
          common_p = common_keys lower_points upper_points;
          kept = filter (\<lambda>p. let lower_q = the (lower_dict p); upper_q = the (upper_dict p)
                              in flt lower_q upper_q \<and> fge lower_q (Fin 0) \<and>
                                 isfinite lower_q \<and> isfinite upper_q) common_p
      in points_at lower_points upper_points kept)"

text \<open>\<^verbatim>\<open>xs[::k]\<close> for \<open>k \<ge> 1\<close>.\<close>

definition every_nth :: "nat \<Rightarrow> 'a list \<Rightarrow> 'a list" where
  "every_nth k xs = map (\<lambda>j. xs ! (j * k)) [0..<(length xs + k - 1) div k]"

text \<open>The first and the last index are always kept.\<close>

definition ensure_ends :: "nat \<Rightarrow> nat list \<Rightarrow> nat list" where
  "ensure_ends k sel =
     (if k > 0 then
        (let sel = (if 0 \<notin> set sel then 0 # sel else sel);
             sel = (if k - 1 \<notin> set sel then sel @ [k - 1] else sel)
         in sorted_list_of_set (set sel))
      else sel)"

text \<open>The indices kept by the adaptive sampling of a band of more than 300 points.\<close>

definition selected_indices :: "real \<Rightarrow> real \<Rightarrow> real list \<Rightarrow> nat list" where
  "selected_indices lo_e hi_e p_array =
     (let idx = [0..<length p_array];
          interp_indices = filter (\<lambda>i. is_interpolation lo_e hi_e (p_array ! i)) idx;
          sel_interp = (if length interp_indices > 150
                        then every_nth (max 1 (length interp_indices div 150)) interp_indices
                        else interp_indices);
          near_extrap_indices = filter (\<lambda>i. is_near_extrapolation lo_e hi_e (p_array ! i)) idx;
          far_extrap_indices = filter (\<lambda>i. is_far_extrapolation lo_e hi_e (p_array ! i)) idx;
          sel = sel_interp @ every_nth 2 near_extrap_indices @ every_nth 3 far_extrap_indices;
          sel = sorted_list_of_set (set sel)
      in ensure_ends (length p_array) sel)"

definition adaptive_sample ::
  "real \<Rightarrow> real \<Rightarrow> ci_point list \<times> ci_point list \<Rightarrow> ci_point list \<times> ci_point list" where
  "adaptive_sample lo_e hi_e temp =
     (let temp_lower = fst temp; temp_upper = snd temp in
      if length temp_lower > 300 then
        (let sel = selected_indices lo_e hi_e (map fst temp_lower)
         in (map (\<lambda>i. temp_lower ! i) sel, map (\<lambda>i. temp_upper ! i) sel))
      else (temp_lower, temp_upper))"

text \<open>\<^verbatim>\<open>np.arange(start, stop, 1.0)\<close>.\<close>

definition arange1 :: "real \<Rightarrow> real \<Rightarrow> real list" where
  "arange1 start stop = map (\<lambda>i. start + real i) [0..<nat \<lceil>stop - start\<rceil>]"

text \<open>\<^verbatim>\<open>np.diff\<close>.\<close>

definition diffs :: "real list \<Rightarrow> real list" where
  "diffs xs = map (\<lambda>(a, b). b - a) (zip xs (tl xs))"

text \<open>
  The interpolated band on the grid of spacing 1 between the first and the last common
  position; \<open>None\<close> when \<^verbatim>\<open>interp1d\<close> raises, and the original points are then used.
\<close>

definition interpolated_band ::
  "env \<Rightarrow> ci_point list \<Rightarrow> ci_point list \<Rightarrow> real list
     \<Rightarrow> (ci_point list \<times> ci_point list) option" where
  "interpolated_band E final_lower final_upper common_p_sorted =
     (let p_min = hd common_p_sorted;
          p_max = last common_p_sorted;
          p_interp = arange1 p_min (p_max + 1);
          lower_q_array = map snd (fst (points_at final_lower final_upper common_p_sorted));
          upper_q_array = map snd (snd (points_at final_lower final_upper common_p_sorted))
      in case scipy_interp1d E common_p_sorted lower_q_array of
           None \<Rightarrow> None
         | Some lower_interp_func \<Rightarrow>
             (case scipy_interp1d E common_p_sorted upper_q_array of
                None \<Rightarrow> None
              | Some upper_interp_func \<Rightarrow>
                  let valid_interp = (\<lambda>p. flt (lower_interp_func p) (upper_interp_func p) \<and>
                                           fge (lower_interp_func p) (Fin 0) \<and>
                                           isfinite (lower_interp_func p) \<and>
                                           isfinite (upper_interp_func p));
                      final_lower_interp =
                        map (\<lambda>p. (p, lower_interp_func p)) (filter valid_interp p_interp);
                      final_upper_interp =
                        map (\<lambda>p. (p, upper_interp_func p)) (filter valid_interp p_interp);
                      common_p_interp = common_keys final_lower_interp final_upper_interp
                  in Some (points_at final_lower_interp final_upper_interp common_p_interp)))"

definition fill_gaps ::
  "env \<Rightarrow> ci_point list \<times> ci_point list \<Rightarrow> ci_point list \<times> ci_point list" where
  "fill_gaps E final =
     (let final_lower = fst final; final_upper = snd final in
      if length final_lower > 2 \<and> length final_upper > 2 then
        (let common_p_sorted = common_keys final_lower final_upper in
         if length common_p_sorted > 2 then
           (if \<exists>g \<in> set (diffs common_p_sorted). g > 5 then
              (case interpolated_band E final_lower final_upper common_p_sorted of
                 Some band \<Rightarrow> band
               | None \<Rightarrow> points_at final_lower final_upper common_p_sorted)
            else points_at final_lower final_upper common_p_sorted)
         else points_at final_lower final_upper common_p_sorted)
      else (final_lower, final_upper))"

record ci_band =
  lower :: "point list"
  upper :: "point list"

definition to_point :: "ci_point \<Rightarrow> point" where
  "to_point pq = Point (PyFloat (Fin (fst pq))) (PyFloat (snd pq))"

text \<open>
  The bounds after the width floor (Gumbel only) and the inversion correction.
\<close>

definition corrected_bounds ::
  "string \<Rightarrow> npfloat list \<Rightarrow> npfloat list \<Rightarrow> npfloat list \<Rightarrow> (npfloat \<times> npfloat) list" where
  "corrected_bounds distribution_name Q_theoretical_for_ci lower_ci upper_ci =
     (let bounds = zip lower_ci upper_ci;
          bounds = (if distribution_name = ''gumbel''
                    then map (\<lambda>(theo, l, u). width_floor theo l u) (zip Q_theoretical_for_ci bounds)
                    else bounds)
      in map swap_inverted bounds)"

text \<open>\<^verbatim>\<open>valid_mask\<close>: both bounds finite, and the position passes the plausibility filter.\<close>

definition band_valid_mask ::
  "string \<Rightarrow> real \<Rightarrow> real \<Rightarrow> real list \<Rightarrow> npfloat list \<Rightarrow> (npfloat \<times> npfloat) list
     \<Rightarrow> bool list" where
  "band_valid_mask distribution_name lo_e hi_e p_percent_for_ci Q_theoretical_for_ci bounds =
     (let valid_mask = map (\<lambda>(l, u). isfinite l \<and> isfinite u) bounds
      in map (\<lambda>(p, theo, (l, u), valid).
                 plausible distribution_name lo_e hi_e p theo l u valid)
             (zip p_percent_for_ci (zip Q_theoretical_for_ci (zip bounds valid_mask))))"

text \<open>The two point lists of the band, from the valid positions.\<close>

definition assemble_band ::
  "env \<Rightarrow> real \<Rightarrow> real \<Rightarrow> real list \<Rightarrow> (npfloat \<times> npfloat) list \<Rightarrow> bool list \<Rightarrow> ci_band" where
  "assemble_band E lo_e hi_e p_percent_for_ci bounds valid_mask =
     (let lower_points = select_mask (zip p_percent_for_ci (map fst bounds)) valid_mask;
          upper_points = select_mask (zip p_percent_for_ci (map snd bounds)) valid_mask;
          lower_points = sort_key fst lower_points;
          upper_points = sort_key fst upper_points;
          temp = temp_points lower_points upper_points;
          final = adaptive_sample lo_e hi_e temp;
          final = (sort_key fst (fst final), sort_key fst (snd final));
          final = fill_gaps E final
      in \<lparr>lower = map to_point (fst final), upper = map to_point (snd final)\<rparr>)"

text \<open>
  From the percentile arrays to the band, or to \<open>None\<close> when fewer than 30 percent of the
  positions are still valid.
\<close>

definition band_of_percentiles ::
  "env \<Rightarrow> string \<Rightarrow> real \<Rightarrow> real \<Rightarrow> real list \<Rightarrow> npfloat list \<Rightarrow> npfloat list \<Rightarrow> npfloat list
     \<Rightarrow> ci_band option" where
  "band_of_percentiles E distribution_name lo_e hi_e p_percent_for_ci Q_theoretical_for_ci
       lower_ci upper_ci =
     (let bounds = corrected_bounds distribution_name Q_theoretical_for_ci lower_ci upper_ci;
          valid_mask = band_valid_mask distribution_name lo_e hi_e p_percent_for_ci
                         Q_theoretical_for_ci bounds;
          valid_count = length (filter id valid_mask);
          total_count = length p_percent_for_ci
      in if real valid_count < real total_count * (3 / 10) then None
         else Some (assemble_band E lo_e hi_e p_percent_for_ci bounds valid_mask))"

subsection \<open>The bootstrap confidence band\<close>

definition fast_distributions :: "string list" where
  "fast_distributions =
     [''gumbel'', ''lognorm'', ''gamma'', ''logistic'', ''expon'', ''pearson3'', ''frechet'',
      ''genpareto'']"

definition n_bootstrap_of :: "string \<Rightarrow> nat" where
  "n_bootstrap_of distribution_name =
     (if distribution_name = ''gumbel'' then 1500
      else if distribution_name = ''pearson3'' \<or> distribution_name = ''frechet'' then 800
      else if distribution_name = ''genpareto'' then 1000
      else 1000)"

text \<open>
  The iterations that returned an array, in the order the pool delivers them, or in the
  order of the seeds when the pool cannot be started.
\<close>

definition run_bootstrap ::
  "env \<Rightarrow> (nat \<Rightarrow> real option list option) \<Rightarrow> nat \<Rightarrow> real option list list" where
  "run_bootstrap E worker n_bootstrap =
     (let seeds = random_seeds E n_bootstrap;
          results = (case pool_completion E n_bootstrap of
                       None \<Rightarrow> map worker seeds
                     | Some order \<Rightarrow>
                         map (\<lambda>i. worker (seeds ! i)) (filter (\<lambda>i. i < length seeds) order))
      in concat (map (\<lambda>r. case r of Some a \<Rightarrow> [a] | None \<Rightarrow> []) results))"

text \<open>The positions of the curve inside the range of the band, in percent.\<close>

definition ci_positions :: "real list \<Rightarrow> real list" where
  "ci_positions p_percent_fixed =
     (let ci_min_p = 1 / 100; ci_max_p = 9999 / 100
      in filter (\<lambda>p. p \<ge> ci_min_p \<and> p \<le> ci_max_p) p_percent_fixed)"

text \<open>\<^verbatim>\<open>bootstrap_quantiles\<close>: the arrays of the iterations that were not discarded.\<close>

definition bootstrap_quantiles_of ::
  "env \<Rightarrow> scipy_dist \<Rightarrow> string \<Rightarrow> real list \<Rightarrow> pyval list \<Rightarrow> real list \<Rightarrow> npfloat
     \<Rightarrow> real option list list" where
  "bootstrap_quantiles_of E d distribution_name Qmax params p_percent_for_ci absolute_max =
     (let p_values_for_ci = map (\<lambda>p. p / 100) p_percent_for_ci;
          n_bootstrap = n_bootstrap_of distribution_name;
          Q_theoretical_ref =
            map (\<lambda>p. scipy_ppf E d (1 - p) (map num_of params)) p_values_for_ci
      in run_bootstrap E
           (\<lambda>seed. bootstrap_iteration_worker E seed Qmax (length Qmax) distribution_name
                      p_values_for_ci Q_theoretical_ref absolute_max)
           n_bootstrap)"

definition allow_ci :: "nat \<Rightarrow> string \<Rightarrow> bool" where
  "allow_ci n distribution_name = (n \<ge> 20 \<and> distribution_name \<in> set fast_distributions)"

text \<open>
  The block guarded by \<^verbatim>\<open>allow_ci\<close>. Every exception in it is caught and leaves
  \<^verbatim>\<open>confidence_intervals = None\<close>; the one the model meets is the read of
  \<^verbatim>\<open>Q_theoretical_for_ci\<close> before its assignment when no iteration survived.
\<close>

definition confidence_intervals_of ::
  "env \<Rightarrow> scipy_dist \<Rightarrow> string \<Rightarrow> real list \<Rightarrow> pyval list \<Rightarrow> real list \<Rightarrow> npfloat
     \<Rightarrow> ci_band option" where
  "confidence_intervals_of E d distribution_name Qmax params p_percent_fixed absolute_max =
     (if allow_ci (length Qmax) distribution_name then
        (let p_empirical = Weibull Qmax;
             min_p_empirical = Min (set p_empirical);
             max_p_empirical = Max (set p_empirical);
             p_percent_for_ci = ci_positions p_percent_fixed;
             p_values_for_ci = map (\<lambda>p. p / 100) p_percent_for_ci
         in if length p_values_for_ci < 5 then None
            else
              (let bootstrap_quantiles =
                     bootstrap_quantiles_of E d distribution_name Qmax params p_percent_for_ci
                       absolute_max
               in if length bootstrap_quantiles = 0 then None
                  else
                    (let Q_theoretical_for_ci =
                           map (\<lambda>p. scipy_ppf E d (1 - p) (map num_of params)) p_values_for_ci;
                         lower_ci = nanpercentile bootstrap_quantiles
                                      (length p_values_for_ci) (25 / 10);
                         upper_ci = nanpercentile bootstrap_quantiles
                                      (length p_values_for_ci) (975 / 10)
                     in band_of_percentiles E distribution_name min_p_empirical
                          max_p_empirical p_percent_for_ci Q_theoretical_for_ci
                          lower_ci upper_ci)))
      else None)"

subsection \<open>The orchestrator\<close>

record frequency_curve =
  theoretical_curve :: "point list"
  empirical_points :: "point list"
  confidence_intervals :: "ci_band option"
  statistics :: "(string \<times> pyval) list"
  parameters :: "(string \<times> pyval) list"
  distribution :: string
  quality_warnings :: "quality_warning list"

text \<open>
  What the function returns: the dict with the two empty curves of the early exits
  (\<open>NoData\<close>), or the full result.
\<close>

datatype result = NoData | Curve frequency_curve

text \<open>Python's \<^verbatim>\<open>min(a, b)\<close>: \<open>a\<close> unless \<open>b < a\<close>.\<close>

definition py_min :: "npfloat \<Rightarrow> npfloat \<Rightarrow> npfloat" where
  "py_min a b = (if flt b a then b else a)"

text \<open>
  The result built from the fitted parameters and from the positions and quantiles \<open>PQ\<close>
  that the quantile stage left.
\<close>

definition frequency_curve_of ::
  "env \<Rightarrow> scipy_dist \<Rightarrow> string \<Rightarrow> real list \<Rightarrow> pyval list \<Rightarrow> real list \<times> npfloat list
     \<Rightarrow> (string \<times> pyval) list \<Rightarrow> frequency_curve" where
  "frequency_curve_of E d distribution_name Qmax params PQ params_dict =
     (let max_observed = Max (set Qmax);
          reasonable_max = fmul (Fin max_observed) (Fin 10000);
          absolute_max = py_min reasonable_max (Fin (10 ^ 10));
          mean_Q = np_mean E Qmax;
          std_Q = np_std1 E Qmax;
          curve = theoretical_curve_of PQ;
          num_clamped = snd curve;
          cv = coefficient_of_variation mean_Q std_Q;
          cs = scipy_skew E Qmax
      in \<lparr>theoretical_curve = fst curve,
          empirical_points = empirical_points_of Qmax,
          confidence_intervals =
            confidence_intervals_of E d distribution_name Qmax params (fst PQ) absolute_max,
          statistics = statistics_of mean_Q std_Q cv cs (length Qmax),
          parameters = params_dict,
          distribution = distribution_name,
          quality_warnings =
            quality_warnings_of E d distribution_name params Qmax cv cs num_clamped\<rparr>)"

text \<open>
  Everything after the parameters are fitted and validated. Two exceptions reach the
  outer handler and become the 500: the ValueError of the quantile stage, and the
  IndexError of \<^verbatim>\<open>extract_params\<close> on a tuple of one parameter.
\<close>

definition after_fit ::
  "env \<Rightarrow> scipy_dist \<Rightarrow> string \<Rightarrow> real list \<Rightarrow> pyval list \<Rightarrow> error + result" where
  "after_fit E d distribution_name Qmax params =
     (case theoretical_quantiles E d distribution_name params (np_mean E Qmax) (np_std1 E Qmax)
             p_percent_positions of
        None \<Rightarrow> Inl (HTTPException 500 ServerError)
      | Some PQ \<Rightarrow>
          (case extract_params params of
             None \<Rightarrow> Inl (HTTPException 500 ServerError)
           | Some params_dict \<Rightarrow>
               Inr (Curve (frequency_curve_of E d distribution_name Qmax params PQ
                             params_dict))))"

text \<open>
  \<^verbatim>\<open>compute_frequency_curve(distribution_name, agg_func, method)\<close> on the state of the
  data service. \<open>Inl\<close> is the \<^verbatim>\<open>HTTPException\<close> raised.
\<close>

definition compute_frequency_curve ::
  "env \<Rightarrow> data_service \<Rightarrow> string \<Rightarrow> string \<Rightarrow> string \<Rightarrow> error + result" where
  "compute_frequency_curve E ds distribution_name agg_func method =
     (case validate_agg_func agg_func of
        Inl e \<Rightarrow> Inl e
      | Inr _ \<Rightarrow>
     (case distributions distribution_name of
        None \<Rightarrow> Inl (HTTPException 400 UnsupportedDistribution)
      | Some db \<Rightarrow>
     if method \<notin> set valid_methods then Inl (HTTPException 400 InvalidMethod)
     else
     (case data ds of
        None \<Rightarrow> Inr NoData
      | Some df \<Rightarrow>
     if df_empty df then Inr NoData
     else
     (case main_column ds of
        None \<Rightarrow> Inl (HTTPException 400 MissingColumn)
      | Some main_col \<Rightarrow>
     if main_col \<notin> set (columns df) then Inl (HTTPException 400 MissingColumn)
     else
     (case aggregated_series E df main_col agg_func of
        None \<Rightarrow> Inl (HTTPException 400 DataProcessingError)
      | Some Qmax \<Rightarrow>
     if length Qmax = 0 then Inr NoData
     else
       let Qmax_filtered = valid_values Qmax in
       if length Qmax_filtered = 0 then Inl (HTTPException 400 EmptyAfterFiltering)
       else if length Qmax_filtered < 3
         then Inl (HTTPException 400 (InsufficientData (length Qmax_filtered)))
       else
         (case fit_parameters E (dist_impl db) distribution_name method Qmax_filtered of
            None \<Rightarrow> Inl (HTTPException 400 FitFailed)
          | Some params \<Rightarrow>
              after_fit E (dist_impl db) distribution_name Qmax_filtered params))))))"

subsection \<open>Native values, and concrete inputs\<close>

text \<open>
  A value that is a finite native Python number, \<^verbatim>\<open>None\<close>, a string, or a container of
  such values: what \<^verbatim>\<open>_convert_to_python_type\<close> is meant to leave.
\<close>

fun native_finite :: "pyval \<Rightarrow> bool" where
  "native_finite PyNone = True"
| "native_finite (PyInt i) = True"
| "native_finite (PyFloat x) = isfinite x"
| "native_finite (NpInt i) = False"
| "native_finite (NpFloat x) = False"
| "native_finite (PyStr s) = True"
| "native_finite (PyList vs) = list_all native_finite vs"
| "native_finite (PyTuple vs) = list_all native_finite vs"
| "native_finite (NpArray vs) = False"
| "native_finite (PyDict kvs) = list_all (\<lambda>kv. native_finite (snd kv)) kvs"

definition point_values :: "point \<Rightarrow> pyval list" where
  "point_values pt = [P_percent pt, Q pt]"

text \<open>Every value of the returned structure that can hold a number.\<close>

definition result_values :: "frequency_curve \<Rightarrow> pyval list" where
  "result_values r =
     concat (map point_values (theoretical_curve r)) @
     concat (map point_values (empirical_points r)) @
     (case confidence_intervals r of
        None \<Rightarrow> []
      | Some band \<Rightarrow> concat (map point_values (lower band)) @ concat (map point_values (upper band))) @
     map snd (statistics r) @
     map snd (parameters r)"

text \<open>
  An environment and a data service for concrete runs: a frame with the columns
  \<^verbatim>\<open>Year\<close> and \<^verbatim>\<open>Value\<close>, one row per year.
\<close>

definition example_env :: env where
  "example_env =
     \<lparr>scipy_fit = (\<lambda>d xs. Some [NpFloat (Fin 1), NpFloat (Fin 1)]),
      scipy_ppf = (\<lambda>d q ps. Fin 1),
      scipy_skew = (\<lambda>xs. Fin 0),
      scipy_interp1d = (\<lambda>xs ys. None),
      rng_choice = (\<lambda>seed xs n. take n xs),
      random_seeds = (\<lambda>k. [0..<k]),
      pool_completion = (\<lambda>k. None),
      groupby_agg = (\<lambda>f rows. map snd rows),
      np_mean = exact_mean,
      np_std1 = exact_std1,
      np_var1 = exact_var1\<rparr>"

text \<open>
  An environment for concrete runs that reach the band. The fit of a sample is the pair of
  its first value and 1, the quantile function of a pair (loc, scale) is constantly loc,
  and the bootstrap sample of a seed repeats one value of the series: the first value for
  the seeds below 500, the last value for the others.
\<close>

definition band_env :: env where
  "band_env =
     \<lparr>scipy_fit = (\<lambda>d xs. Some [NpFloat (Fin (hd xs)), NpFloat (Fin 1)]),
      scipy_ppf = (\<lambda>d q ps. hd ps),
      scipy_skew = (\<lambda>xs. Fin 0),
      scipy_interp1d = (\<lambda>xs ys. None),
      rng_choice = (\<lambda>seed xs n. replicate n (if seed < 500 then hd xs else last xs)),
      random_seeds = (\<lambda>k. [0..<k]),
      pool_completion = (\<lambda>k. None),
      groupby_agg = (\<lambda>f rows. map snd rows),
      np_mean = exact_mean,
      np_std1 = exact_std1,
      np_var1 = exact_var1\<rparr>"

definition example_service :: "int list \<Rightarrow> real list \<Rightarrow> data_service" where
  "example_service ys xs =
     \<lparr>data = Some \<lparr>columns = [''Year'', ''Value''], nrows = length xs, Year = ys,
                    numeric_column = (\<lambda>c. map Fin xs)\<rparr>,
      main_column = Some ''Value''\<rparr>"

text \<open>
  A yearly value for the run in which the sample variance overflows: its square is inside
  the range of a double, a hundred times a quarter of it is not.
\<close>

definition huge :: real where "huge = 5 * 10 ^ 153"

text \<open>
  A parameter tuple that passes the check after the fit: not empty, every entry finite.
\<close>

definition acceptable :: "pyval list \<Rightarrow> bool" where
  "acceptable ps = (ps \<noteq> [] \<and> list_all (\<lambda>p. isfinite (num_of p)) ps)"




text \<open>
  A completion order of the pool that loses no future and repeats none: for every number
  of iterations, the order is a permutation of the indices of the seeds.
\<close>

definition completion_ok :: "env \<Rightarrow> (nat \<Rightarrow> nat list option) \<Rightarrow> bool" where
  "completion_ok E c =
     (\<forall>k. case c k of
            None \<Rightarrow> True
          | Some order \<Rightarrow> mset order = mset [0..<length (random_seeds E k)])"

text \<open>
  Two notions for the band: a pair of bounds in the right order (\<open>lower < upper\<close>, the
  lower one not negative, both finite), and two point lists in which every two points at
  the same position are such a pair.
\<close>

definition ordered_pair :: "npfloat \<Rightarrow> npfloat \<Rightarrow> bool" where
  "ordered_pair l u = (flt l u \<and> fge l (Fin 0) \<and> isfinite l \<and> isfinite u)"

definition cross :: "ci_point list \<Rightarrow> ci_point list \<Rightarrow> bool" where
  "cross L U = (\<forall>pl \<in> set L. \<forall>pu \<in> set U. fst pl = fst pu \<longrightarrow> ordered_pair (snd pl) (snd pu))"

section \<open>Properties\<close>

subsection \<open>What a successful call went through\<close>

lemma compute_CurveD:
  assumes "compute_frequency_curve E ds distribution_name agg_func method = Inr (Curve r)"
  shows "\<exists>db df main_col A params PQ params_dict.
           agg_func \<in> set [''max'', ''min'', ''sum'', ''mean''] \<and>
           distributions distribution_name = Some db \<and>
           method \<in> set valid_methods \<and>
           data ds = Some df \<and> main_column ds = Some main_col \<and>
           aggregated_series E df main_col agg_func = Some A \<and>
           3 \<le> length (valid_values A) \<and>
           fit_parameters E (dist_impl db) distribution_name method (valid_values A) = Some params \<and>
           theoretical_quantiles E (dist_impl db) distribution_name params
             (np_mean E (valid_values A)) (np_std1 E (valid_values A)) p_percent_positions = Some PQ \<and>
           extract_params params = Some params_dict \<and>
           r = frequency_curve_of E (dist_impl db) distribution_name (valid_values A) params PQ
                 params_dict"
  using assms unfolding compute_frequency_curve_def validate_agg_func_def after_fit_def
  by (auto split: sum.splits option.splits if_splits simp: Let_def)

lemma valid_values_pos: "x \<in> set (valid_values A) \<Longrightarrow> 0 < x"
  unfolding valid_values_def by (auto split: npfloat.splits if_splits)

subsection \<open>Too few valid values\<close>

text \<open>
  Claim C8. A request that passes the validation of its arguments and whose yearly series
  has at least one but fewer than three finite positive values ends in the 400 error that
  reports insufficient data, with the number of valid values; no result is returned.
\<close>

theorem insufficient_data:
  assumes "agg_func \<in> set [''max'', ''min'', ''sum'', ''mean'']"
    and "distributions distribution_name = Some db"
    and "method \<in> set valid_methods"
    and "data ds = Some df" and "\<not> df_empty df"
    and "main_column ds = Some main_col" and "main_col \<in> set (columns df)"
    and "aggregated_series E df main_col agg_func = Some A"
    and "1 \<le> length (valid_values A)" and "length (valid_values A) < 3"
  shows "compute_frequency_curve E ds distribution_name agg_func method =
           Inl (HTTPException 400 (InsufficientData (length (valid_values A))))"
proof -
  have a: "A \<noteq> []" using assms(9) by (auto simp: valid_values_def)
  have v: "valid_values A \<noteq> []" using assms(9) by auto
  show ?thesis
    using a v assms unfolding compute_frequency_curve_def validate_agg_func_def
    by (simp add: Let_def)
qed

theorem insufficient_data_witness:
  "compute_frequency_curve example_env (example_service [1990, 1991] [100, 150])
     ''gumbel'' ''max'' ''auto'' = Inl (HTTPException 400 (InsufficientData 2))"
  using insufficient_data [of "''max''" "''gumbel''" "\<lparr>name = ''Gumbel'', dist_impl = gumbel_r\<rparr>"
      "''auto''" "example_service [1990, 1991] [100, 150]"
      "the (data (example_service [1990, 1991] [100, 150]))" "''Value''" example_env
      "[Fin 100, Fin 150]"]
  by (simp add: distributions_def valid_methods_def example_service_def df_empty_def
      aggregated_series_def year_counts_max_def valid_values_def)

subsection \<open>Concrete runs\<close>

lemma foldr_max_const:
  "\<forall>x\<in>set xs. x = (c::nat) \<Longrightarrow> foldr max xs 0 = (if xs = [] then 0 else c)"
  by (induction xs) (auto simp: max_def)

lemma count_list_distinct: "distinct ys \<Longrightarrow> y \<in> set ys \<Longrightarrow> count_list ys y = 1"
  by (induction ys) auto

lemma year_counts_max_distinct: "distinct ys \<Longrightarrow> ys \<noteq> [] \<Longrightarrow> year_counts_max ys = 1"
  unfolding year_counts_max_def
  using foldr_max_const [of "map (count_list ys) ys" 1]
  by (simp add: count_list_distinct)

lemma valid_values_Fin: "\<forall>x\<in>set xs. 0 < x \<Longrightarrow> valid_values (map Fin xs) = xs"
  unfolding valid_values_def by (induction xs) auto

lemma filter_isfinite_Fin: "filter isfinite (map Fin xs) = map Fin xs"
  by (induction xs) auto

lemma compute_example:
  assumes "distinct ys" and "3 \<le> length xs" and "\<forall>x\<in>set xs. 0 < x" and "ys \<noteq> []"
    and "agg_func \<in> set [''max'', ''min'', ''sum'', ''mean'']"
    and "distributions distribution_name = Some db"
    and "method \<in> set valid_methods"
    and "fit_parameters E (dist_impl db) distribution_name method xs = Some params"
  shows "compute_frequency_curve E (example_service ys xs) distribution_name agg_func method =
           after_fit E (dist_impl db) distribution_name xs params"
proof -
  have x: "xs \<noteq> []" using assms(2) by auto
  have agg: "aggregated_series E (the (data (example_service ys xs))) ''Value'' agg_func = Some (map Fin xs)"
    using assms(1,4) x
    by (simp add: aggregated_series_def example_service_def year_counts_max_distinct filter_isfinite_Fin)
  show ?thesis
    using assms x agg unfolding compute_frequency_curve_def validate_agg_func_def
    by (simp add: Let_def valid_values_Fin example_service_def df_empty_def)
qed

lemma map_fst_zip_fun:
  "length xs = length ys \<Longrightarrow> map (\<lambda>x. f (fst x)) (zip xs ys) = map f xs"
  by (induction xs ys rule: list_induct2) auto

lemma map_snd_zip_fun:
  "length xs = length ys \<Longrightarrow> map (\<lambda>x. g (snd x)) (zip xs ys) = map g ys"
  by (induction xs ys rule: list_induct2) auto

lemma empirical_points_of_P:
  "map P_percent (empirical_points_of Qmax) =
     map (\<lambda>i. PyFloat (Fin (100 * real i / real (length Qmax + 1)))) [1..<length Qmax + 1]"
proof -
  have z: "\<And>(f :: real \<Rightarrow> pyval) (g :: real \<Rightarrow> pyval) (xs :: real list) (ys :: real list).
             length xs = length ys \<Longrightarrow>
             map P_percent (map (\<lambda>(p, q). Point (f p) (g q)) (zip xs ys)) = map f xs"
    by (simp add: case_prod_beta comp_def map_fst_zip_fun)
  show ?thesis
    unfolding empirical_points_of_def Let_def
    by (subst z) (simp_all add: comp_def algebra_simps del: upt_Suc)
qed

lemma empirical_points_of_Q:
  "map Q (empirical_points_of Qmax) = map (\<lambda>q. PyFloat (Fin q)) (rev (sort Qmax))"
proof -
  have z: "\<And>(f :: real \<Rightarrow> pyval) (g :: real \<Rightarrow> pyval) (xs :: real list) (ys :: real list).
             length xs = length ys \<Longrightarrow>
             map Q (map (\<lambda>(p, q). Point (f p) (g q)) (zip xs ys)) = map g ys"
    by (simp add: case_prod_beta comp_def map_snd_zip_fun)
  show ?thesis
    unfolding empirical_points_of_def Let_def
    by (subst z) (simp_all add: comp_def del: upt_Suc)
qed

subsection \<open>Evaluating the moments fit of the Gumbel family\<close>

lemma DBL_MAX_big: "1000000000000 \<le> DBL_MAX"
  unfolding DBL_MAX_def by simp

lemma fl_Fin: "\<bar>r\<bar> \<le> 1000000000000 \<Longrightarrow> fl r = Fin r"
  using DBL_MAX_big unfolding fl_def by auto

lemma sqrt6_bounds: "0 < sqrt 6" "sqrt 6 \<le> 3"
  by (simp_all add: real_le_lsqrt)

lemma gumbel_scale_bound:
  assumes "0 \<le> s" and "s \<le> 1000000"
  shows "0 \<le> s * sqrt 6 / pi" and "s * sqrt 6 / pi \<le> 3000000" and "s * sqrt 6 \<le> 3000000"
proof -
  have a: "s * sqrt 6 \<le> s * 3" using assms sqrt6_bounds by (simp add: mult_left_mono)
  then show b: "s * sqrt 6 \<le> 3000000" using assms by simp
  show c: "0 \<le> s * sqrt 6 / pi" using assms by simp
  have "s * sqrt 6 / pi \<le> s * sqrt 6 / 1"
    using assms pi_ge_two by (intro divide_left_mono) auto
  then show "s * sqrt 6 / pi \<le> 3000000" using b by simp
qed

lemma mom_gumbel_Fin:
  assumes "0 \<le> s" and "s \<le> 1000000" and "\<bar>m\<bar> \<le> 1000000"
  shows "mom_gumbel (Fin m) (Fin s) =
           MomParams [NpFloat (Fin (m - euler_gamma * (s * sqrt 6 / pi))),
                      NpFloat (Fin (s * sqrt 6 / pi))]"
proof -
  define t where "t = s * sqrt 6 / pi"
  have b: "0 \<le> t" "t \<le> 3000000" "s * sqrt 6 \<le> 3000000"
    using gumbel_scale_bound [OF assms(1,2)] by (simp_all add: t_def)
  have 0: "0 \<le> s * sqrt 6" using assms(1) by simp
  have 1: "fmul (Fin s) (Fin (sqrt 6)) = Fin (s * sqrt 6)"
    using b(3) 0 by (simp add: fl_Fin)
  have 2: "fdiv (Fin (s * sqrt 6)) (Fin pi) = Fin t"
    using b(1,2) by (simp add: fl_Fin t_def)
  have c: "0 \<le> euler_gamma * t" "euler_gamma * t \<le> 3000000"
    using b(1,2) by (auto simp: euler_gamma_def)
  have 3: "fmul (Fin (euler_gamma)) (Fin t) = Fin (euler_gamma * t)"
    using c by (simp only: fmul.simps) (rule fl_Fin, linarith)
  have 4: "fsub (Fin m) (Fin (euler_gamma * t)) = Fin (m - euler_gamma * t)"
    using c assms(3) by (simp only: fsub_def fneg.simps fadd.simps) (subst fl_Fin, linarith, simp)
  have "mom_gumbel (Fin m) (Fin s) =
          MomParams [NpFloat (Fin (m - euler_gamma * t)), NpFloat (Fin t)]"
    unfolding mom_gumbel_def Let_def 1 2 3 4 ..
  then show ?thesis by (simp add: t_def)
qed

lemma gumbel_params_valid:
  "validate_params [NpFloat (Fin a), NpFloat (Fin b)] = Some [NpFloat (Fin a), NpFloat (Fin b)]"
  by (simp add: validate_params_def)

lemma fit_gumbel_auto:
  assumes "np_mean E xs = Fin m" and "np_std1 E xs = Fin s" and "0 \<le> s" and "s \<le> 1000000"
    and "\<bar>m\<bar> \<le> 1000000"
  shows "fit_parameters E d ''gumbel'' ''auto'' xs =
           Some [NpFloat (Fin (m - euler_gamma * (s * sqrt 6 / pi))),
                 NpFloat (Fin (s * sqrt 6 / pi))]"
proof -
  have "fit_distribution_mom E ''gumbel'' xs =
           MomParams [NpFloat (Fin (m - euler_gamma * (s * sqrt 6 / pi))),
                      NpFloat (Fin (s * sqrt 6 / pi))]"
    unfolding fit_distribution_mom_def Let_def assms(1,2)
    using mom_gumbel_Fin [of s m] assms(3,4,5) by simp
  then show ?thesis
    by (simp add: fit_parameters_def use_mom_def gumbel_params_valid)
qed

lemma example_env_reductions:
  "np_mean example_env = exact_mean" "np_std1 example_env = exact_std1"
  "np_var1 example_env = exact_var1"
  by (simp_all add: example_env_def)

lemma exact_std1_Fin:
  "exact_var1 xs = Fin v \<Longrightarrow> 0 \<le> v \<Longrightarrow> exact_std1 xs = Fin (sqrt v)"
  by (simp add: exact_std1_def)

text \<open>The Gumbel branches of the quantile stage never raise.\<close>

lemma theoretical_quantiles_gumbel:
  "\<exists>PQ. theoretical_quantiles E d ''gumbel'' params mean_Q std_Q P = Some PQ"
  by (simp add: theoretical_quantiles_def Let_def)

lemma after_fit_Some:
  assumes "theoretical_quantiles E d dn params (np_mean E Qmax) (np_std1 E Qmax)
             p_percent_positions = Some PQ"
    and "extract_params params = Some pd"
  shows "after_fit E d dn Qmax params = Inr (Curve (frequency_curve_of E d dn Qmax params PQ pd))"
  using assms by (simp add: after_fit_def)

lemma extract_params_two:
  "extract_params [a, b] = Some [(''shape'', PyNone), (''loc'', a), (''scale'', b)]"
  by (simp add: extract_params_def)

subsection \<open>Empirical points\<close>

lemma empirical_fields:
  "empirical_points (frequency_curve_of E d dn Qmax ps PQ pd) = empirical_points_of Qmax"
  by (simp add: frequency_curve_of_def Let_def)

text \<open>
  Claim C2. A successful call on a yearly series with \<open>k\<close> valid values returns exactly
  \<open>k\<close> empirical points; the probability of the \<open>i\<close>-th point is \<open>100 i / (k + 1)\<close> and
  its value is the \<open>i\<close>-th largest value of the series (the values sorted in descending
  order).
\<close>

theorem empirical_points_weibull:
  assumes "compute_frequency_curve E ds distribution_name agg_func method = Inr (Curve r)"
    and "data ds = Some df" and "main_column ds = Some main_col"
    and "aggregated_series E df main_col agg_func = Some A"
    and "Qmax = valid_values A" and "k = length Qmax"
  shows "length (empirical_points r) = k \<and>
         map P_percent (empirical_points r) =
           map (\<lambda>i. PyFloat (Fin (100 * real i / real (k + 1)))) [1..<k + 1] \<and>
         map Q (empirical_points r) = map (\<lambda>q. PyFloat (Fin q)) (rev (sort Qmax))"
proof -
  from compute_CurveD [OF assms(1)] assms(2-5)
  have r: "empirical_points r = empirical_points_of Qmax"
    by (auto simp: empirical_fields)
  have "length (empirical_points_of Qmax) = k"
    using assms(6) by (simp add: empirical_points_of_def Let_def del: upt_Suc)
  then show ?thesis
    unfolding r using assms(6) empirical_points_of_P [of Qmax] empirical_points_of_Q [of Qmax]
    by (simp del: upt_Suc)
qed

lemma exact_mean_ex: "exact_mean [100, 150, 120, 200, 90] = Fin 132"
  by (simp add: exact_mean_def fsum_def fl_Fin)

lemma exact_var1_ex: "exact_var1 [100, 150, 120, 200, 90] = Fin 1970"
  by (simp add: exact_var1_def exact_mean_def fsum_def fl_Fin fsub_def)

lemma sqrt_le_million: "0 \<le> v \<Longrightarrow> v \<le> 1000000 \<Longrightarrow> sqrt v \<le> 1000000"
  by (intro real_le_lsqrt) auto

lemma scenario1_fit:
  "fit_parameters example_env gumbel_r ''gumbel'' ''auto'' [100, 150, 120, 200, 90] =
     Some [NpFloat (Fin (132 - euler_gamma * (sqrt 1970 * sqrt 6 / pi))),
           NpFloat (Fin (sqrt 1970 * sqrt 6 / pi))]"
  using fit_gumbel_auto [of example_env "[100, 150, 120, 200, 90]" 132 "sqrt 1970" gumbel_r]
    exact_std1_Fin [OF exact_var1_ex] sqrt_le_million [of 1970]
  by (simp add: example_env_reductions exact_mean_ex)

lemma scenario1_after_fit:
  "compute_frequency_curve example_env
     (example_service [1990, 1991, 1992, 1993, 1994] [100, 150, 120, 200, 90])
     ''gumbel'' ''max'' ''auto'' =
   after_fit example_env gumbel_r ''gumbel'' [100, 150, 120, 200, 90]
     [NpFloat (Fin (132 - euler_gamma * (sqrt 1970 * sqrt 6 / pi))),
      NpFloat (Fin (sqrt 1970 * sqrt 6 / pi))]"
  using compute_example [of "[1990, 1991, 1992, 1993, 1994]" "[100, 150, 120, 200, 90]" "''max''"
      "''gumbel''" "\<lparr>name = ''Gumbel'', dist_impl = gumbel_r\<rparr>" "''auto''" example_env
      "[NpFloat (Fin (132 - euler_gamma * (sqrt 1970 * sqrt 6 / pi))),
        NpFloat (Fin (sqrt 1970 * sqrt 6 / pi))]"]
    scenario1_fit
  by (simp add: distributions_def valid_methods_def)

lemma scenario1_runs:
  "\<exists>r. compute_frequency_curve example_env
          (example_service [1990, 1991, 1992, 1993, 1994] [100, 150, 120, 200, 90])
          ''gumbel'' ''max'' ''auto'' = Inr (Curve r)"
proof -
  let ?ps = "[NpFloat (Fin (132 - euler_gamma * (sqrt 1970 * sqrt 6 / pi))),
              NpFloat (Fin (sqrt 1970 * sqrt 6 / pi))]"
  obtain PQ where "theoretical_quantiles example_env gumbel_r ''gumbel'' ?ps
      (np_mean example_env [100, 150, 120, 200, 90]) (np_std1 example_env [100, 150, 120, 200, 90])
      p_percent_positions = Some PQ"
    using theoretical_quantiles_gumbel by blast
  from after_fit_Some [OF this extract_params_two] show ?thesis
    unfolding scenario1_after_fit by blast
qed

theorem empirical_points_weibull_witness:
  "\<exists>r. compute_frequency_curve example_env
          (example_service [1990, 1991, 1992, 1993, 1994] [100, 150, 120, 200, 90])
          ''gumbel'' ''max'' ''auto'' = Inr (Curve r) \<and>
       length (empirical_points r) = 5 \<and>
       map P_percent (empirical_points r) =
         [PyFloat (Fin (100 / 6)), PyFloat (Fin (200 / 6)), PyFloat (Fin (300 / 6)),
          PyFloat (Fin (400 / 6)), PyFloat (Fin (500 / 6))] \<and>
       map Q (empirical_points r) =
         [PyFloat (Fin 200), PyFloat (Fin 150), PyFloat (Fin 120), PyFloat (Fin 100),
          PyFloat (Fin 90)]"
proof -
  let ?ds = "example_service [1990, 1991, 1992, 1993, 1994] [100, 150, 120, 200, 90]"
  obtain r where r: "compute_frequency_curve example_env ?ds ''gumbel'' ''max'' ''auto'' = Inr (Curve r)"
    using scenario1_runs by blast
  have agg: "aggregated_series example_env (the (data ?ds)) ''Value'' ''max'' =
               Some (map Fin [100, 150, 120, 200, 90])"
    by (simp add: aggregated_series_def example_service_def year_counts_max_def)
  have v: "valid_values (map Fin [100, 150, 120, 200, 90]) = [100, 150, 120, 200, 90]"
    by (simp add: valid_values_def)
  have u: "[Suc 0..<6] = [1, 2, 3, 4, 5::nat]"
    by code_simp
  from empirical_points_weibull [OF r _ _ agg v [symmetric], where k = 5]
  have "length (empirical_points r) = 5 \<and>
         map P_percent (empirical_points r) =
           map (\<lambda>i. PyFloat (Fin (100 * real i / real (5 + 1)))) [1..<5 + 1] \<and>
         map Q (empirical_points r) = map (\<lambda>q. PyFloat (Fin q)) (rev (sort [100, 150, 120, 200, 90]))"
    by (simp add: example_service_def)
  then show ?thesis using r by (simp add: u)
qed

subsection \<open>Positions of the curve\<close>

lemma remove_close_tail:
  "sorted ((x::real) # xs) \<Longrightarrow>
   sorted_wrt (<) (map snd (filter (\<lambda>(a, b). b - a > 1 / 10 ^ 6) (zip (x # xs) xs))) \<and>
   (\<forall>b \<in> set (map snd (filter (\<lambda>(a, b). b - a > 1 / 10 ^ 6) (zip (x # xs) xs))). x < b)"
proof (induction xs arbitrary: x)
  case Nil
  then show ?case by simp
next
  case (Cons y ys)
  have s: "sorted (y # ys)" and xy: "x \<le> y" using Cons.prems by auto
  define T where "T = map snd (filter (\<lambda>(a, b). b - a > 1 / 10 ^ 6) (zip (y # ys) ys))"
  have ih: "sorted_wrt (<) T" "\<forall>b \<in> set T. y < b"
    using Cons.IH [OF s] by (simp_all add: T_def)
  have L: "map snd (filter (\<lambda>(a, b). b - a > 1 / 10 ^ 6) (zip (x # y # ys) (y # ys))) =
           (if y - x > 1 / 10 ^ 6 then [y] else []) @ T"
    by (simp add: T_def)
  have "x < y" if "y - x > 1 / 10 ^ 6"
    using that by (simp add: field_simps)
  then show ?case
    unfolding L using ih xy by (auto simp: sorted_wrt_append)
qed

lemma remove_close_strict: "sorted xs \<Longrightarrow> sorted_wrt (<) (remove_close xs)"
proof (cases xs)
  case Nil
  then show ?thesis by simp
next
  case (Cons x ys)
  assume "sorted xs"
  then show ?thesis using remove_close_tail [of x ys] Cons by simp
qed

lemma set_remove_close: "set (remove_close xs) \<subseteq> set xs"
proof (cases xs)
  case Nil
  then show ?thesis by simp
next
  case (Cons x ys)
  have "set (map snd (filter (\<lambda>(a, b). b - a > 1 / 10 ^ 6) (zip (x # ys) ys))) \<subseteq> set ys"
    for x :: real and ys
    by (auto dest: set_zip_rightD)
  then show ?thesis using Cons by auto
qed

lemma clip_bounds: "lo \<le> hi \<Longrightarrow> lo \<le> clip x lo hi \<and> clip x lo hi \<le> hi"
  by (auto simp: clip_def)

lemma p_percent_positions_strict: "sorted_wrt (<) p_percent_positions"
  unfolding p_percent_positions_def Let_def by (rule remove_close_strict) simp

lemma p_percent_positions_range:
  "p \<in> set p_percent_positions \<Longrightarrow> min_p \<le> p \<and> p \<le> max_p"
proof -
  assume "p \<in> set p_percent_positions"
  then have "p \<in> set (map (\<lambda>p. clip p min_p max_p) (map inverse_mixed_scale (linspace01 num_points)))"
    using set_remove_close unfolding p_percent_positions_def Let_def by fastforce
  then show ?thesis
    using clip_bounds [of min_p max_p] by (auto simp: min_p_def max_p_def)
qed


subsection \<open>Masks and the loop of the curve\<close>









lemma curve_loop_keys:
  "map (\<lambda>pt. key_of (P_percent pt)) (fst (curve_loop pq)) = map fst (filter kept pq)"
  by (induction pq rule: curve_loop.induct)
     (auto simp: kept_def key_of_def split: prod.splits)

lemma curve_loop_map:
  "fst (curve_loop pq) = map (\<lambda>pq. curve_point (fst pq) (snd pq)) (filter kept pq)"
  by (induction pq rule: curve_loop.induct)
     (auto simp: kept_def curve_point_def split: prod.splits)






lemma sorted_keys_zip:
  assumes "sorted_wrt (<) (P :: real list)"
  shows "sorted_wrt (<) (map fst (filter kept (zip P Qs)))"
proof -
  have "sorted_wrt (<) (map fst (zip P Qs))"
    using assms by (simp add: map_fst_zip_take sorted_wrt_take)
  then have "sorted_wrt (\<lambda>a b. fst a < fst b) (zip P Qs)"
    by (simp add: sorted_wrt_map)
  then have "sorted_wrt (\<lambda>a b. fst a < fst b) (filter kept (zip P Qs))"
    by (rule sorted_wrt_filter)
  then show ?thesis by (simp add: sorted_wrt_map)
qed

lemma theoretical_curve_of_sorted:
  assumes "sorted_wrt (<) (fst PQ)"
  shows "fst (theoretical_curve_of PQ) = fst (curve_loop (zip (fst PQ) (snd PQ)))"
    and "snd (theoretical_curve_of PQ) = snd (curve_loop (zip (fst PQ) (snd PQ)))"
    and "sorted_wrt (<) (map (\<lambda>pt. key_of (P_percent pt)) (fst (theoretical_curve_of PQ)))"
proof -
  have k: "sorted_wrt (<) (map (\<lambda>pt. key_of (P_percent pt)) (fst (curve_loop (zip (fst PQ) (snd PQ)))))"
    unfolding curve_loop_keys using assms by (rule sorted_keys_zip)
  then have "sorted (map (\<lambda>pt. key_of (P_percent pt)) (fst (curve_loop (zip (fst PQ) (snd PQ)))))"
    by (simp add: strict_sorted_iff)
  then show 1: "fst (theoretical_curve_of PQ) = fst (curve_loop (zip (fst PQ) (snd PQ)))"
    by (simp add: theoretical_curve_of_def Let_def case_prod_beta sort_key_id_if_sorted)
  show "snd (theoretical_curve_of PQ) = snd (curve_loop (zip (fst PQ) (snd PQ)))"
    by (simp add: theoretical_curve_of_def Let_def case_prod_beta)
  show "sorted_wrt (<) (map (\<lambda>pt. key_of (P_percent pt)) (fst (theoretical_curve_of PQ)))"
    unfolding 1 by (rule k)
qed

lemma curve_fields:
  "theoretical_curve (frequency_curve_of E d dn Qmax ps PQ pd) = fst (theoretical_curve_of PQ)"
  "quality_warnings (frequency_curve_of E d dn Qmax ps PQ pd) =
     quality_warnings_of E d dn ps Qmax
       (coefficient_of_variation (np_mean E Qmax) (np_std1 E Qmax))
       (scipy_skew E Qmax) (snd (theoretical_curve_of PQ))"
  by (simp_all add: frequency_curve_of_def Let_def)





text \<open>
  A run with a negative quantile: the Gumbel curve of the series 1, 1, 100 at the positions
  of 99 percent and more.
\<close>

lemma remove_close_kept:
  assumes "i < length xs" and "(x # xs) ! Suc i - (x # xs) ! i > 1 / 10 ^ 6"
  shows "(x # xs) ! Suc i \<in> set (remove_close (x # xs))"
proof -
  have "(zip (x # xs) xs) ! i = ((x # xs) ! i, xs ! i)"
    using assms(1) by simp
  moreover have "i < length (zip (x # xs) xs)" using assms(1) by simp
  ultimately have "((x # xs) ! i, xs ! i) \<in> set (zip (x # xs) xs)"
    by (metis nth_mem)
  then have "((x # xs) ! i, xs ! i) \<in> set (filter (\<lambda>(a, b). b - a > 1 / 10 ^ 6) (zip (x # xs) xs))"
    using assms(2) by simp
  then have "snd ((x # xs) ! i, xs ! i) \<in> snd ` set (filter (\<lambda>(a, b). b - a > 1 / 10 ^ 6) (zip (x # xs) xs))"
    by (rule imageI)
  then show ?thesis by simp
qed

lemma remove_close_near:
  assumes "sorted (L :: real list)" and "i < length L"
  shows "\<exists>k \<in> set (remove_close L). k \<le> L ! i \<and> L ! i - k \<le> real i / 10 ^ 6"
  using assms(2)
proof (induction i)
  case 0
  then obtain x xs where "L = x # xs" by (cases L) auto
  then show ?case by simp
next
  case (Suc i)
  then obtain x xs where L: "L = x # xs" by (cases L) auto
  have i: "i < length xs" using Suc.prems L by simp
  have le: "L ! i \<le> L ! Suc i"
    using assms(1) Suc.prems by (simp add: sorted_iff_nth_mono)
  show ?case
  proof (cases "L ! Suc i - L ! i > 1 / 10 ^ 6")
    case True
    then have "L ! Suc i \<in> set (remove_close L)"
      unfolding L using i by (rule remove_close_kept [rotated])
    then show ?thesis by (intro bexI [of _ "L ! Suc i"]) simp_all
  next
    case False
    from Suc.IH Suc.prems obtain k where k: "k \<in> set (remove_close L)" "k \<le> L ! i"
      "L ! i - k \<le> real i / 10 ^ 6" by auto
    have "L ! Suc i - k \<le> real (Suc i) / 10 ^ 6"
      using False k(3) by (simp add: field_simps)
    then show ?thesis using k(1,2) le by (intro bexI [of _ k]) simp_all
  qed
qed

















subsection \<open>The sanity check of the fit\<close>

lemma DBL_MAX_pos: "0 < DBL_MAX"
  using DBL_MAX_big by linarith

lemma flt_ten_times:
  assumes "q < M" and "0 < M"
  shows "flt (Fin q) (fmul (Fin M) (Fin 10))"
proof -
  have "fl (M * 10) = PInf \<or> fl (M * 10) = Fin (M * 10)"
    using assms(2) DBL_MAX_pos unfolding fl_def by auto
  then show ?thesis using assms by auto
qed

lemma validity_warning_present:
  assumes "scipy_ppf E d (1 - 1 / 100) (map num_of params) = Fin q"
    and "q < Max (set Qmax)" and "0 < Max (set Qmax)"
  shows "validity_warning E d dn params Qmax = [ImplausibleFit dn (Fin q) (Max (set Qmax))]"
  using assms flt_ten_times [OF assms(2,3)]
  by (simp add: validity_warning_def Let_def)

text \<open>
  Claim C7. When a call succeeds and the quantile of the fitted distribution at 1 percent
  exceedance (\<^verbatim>\<open>dist.ppf(0.99, *params)\<close>) is a number below the largest value of the
  series, the quality warnings of the result contain the implausible-fit warning, with the
  distribution, that quantile and the observed maximum.
\<close>

theorem implausible_fit_warning:
  assumes "compute_frequency_curve E ds distribution_name agg_func method = Inr (Curve r)"
    and "distributions distribution_name = Some db"
    and "data ds = Some df" and "main_column ds = Some main_col"
    and "aggregated_series E df main_col agg_func = Some A"
    and "fit_parameters E (dist_impl db) distribution_name method (valid_values A) = Some params"
    and "scipy_ppf E (dist_impl db) (1 - 1 / 100) (map num_of params) = Fin q"
    and "q < Max (set (valid_values A))"
  shows "ImplausibleFit distribution_name (Fin q) (Max (set (valid_values A)))
           \<in> set (quality_warnings r)"
proof -
  from compute_CurveD [OF assms(1)] assms(2-6) obtain PQ params_dict where
    r: "r = frequency_curve_of E (dist_impl db) distribution_name (valid_values A) params PQ
              params_dict"
    and n: "3 \<le> length (valid_values A)"
    by auto
  have ne: "valid_values A \<noteq> []" using n by auto
  then have "Max (set (valid_values A)) \<in> set (valid_values A)"
    by (intro Max_in) auto
  then have pos: "0 < Max (set (valid_values A))"
    by (rule valid_values_pos)
  show ?thesis
    unfolding r curve_fields quality_warnings_of_def Let_def
    by (simp add: validity_warning_present [OF assms(7,8) pos])
qed

theorem implausible_fit_warning_witness:
  "\<exists>r. compute_frequency_curve example_env
          (example_service [1990, 1991, 1992, 1993, 1994] [100, 150, 120, 200, 90])
          ''gumbel'' ''max'' ''auto'' = Inr (Curve r) \<and>
       ImplausibleFit ''gumbel'' (Fin 1) 200 \<in> set (quality_warnings r)"
proof -
  let ?ds = "example_service [1990, 1991, 1992, 1993, 1994] [100, 150, 120, 200, 90]"
  obtain r where r: "compute_frequency_curve example_env ?ds ''gumbel'' ''max'' ''auto'' = Inr (Curve r)"
    using scenario1_runs by blast
  have agg: "aggregated_series example_env (the (data ?ds)) ''Value'' ''max'' =
               Some (map Fin [100, 150, 120, 200, 90])"
    by (simp add: aggregated_series_def example_service_def year_counts_max_def)
  have v: "valid_values (map Fin [100, 150, 120, 200, 90]) = [100, 150, 120, 200, 90]"
    by (simp add: valid_values_def)
  have f: "fit_parameters example_env (dist_impl \<lparr>name = ''Gumbel'', dist_impl = gumbel_r\<rparr>)
             ''gumbel'' ''auto'' (valid_values (map Fin [100, 150, 120, 200, 90])) =
           Some [NpFloat (Fin (132 - euler_gamma * (sqrt 1970 * sqrt 6 / pi))),
                 NpFloat (Fin (sqrt 1970 * sqrt 6 / pi))]"
    unfolding v using scenario1_fit by simp
  have "ImplausibleFit ''gumbel'' (Fin 1) (Max (set (valid_values (map Fin [100, 150, 120, 200, 90]))))
           \<in> set (quality_warnings r)"
    by (rule implausible_fit_warning [OF r _ _ _ agg f])
       (simp_all add: distributions_def example_service_def example_env_def valid_values_def)
  then show ?thesis using r by (simp add: valid_values_def)
qed

subsection \<open>A series of equal values\<close>

lemma set_zip_map_same:
  "(p, q) \<in> set (zip xs (map f xs)) \<Longrightarrow> p \<in> set xs \<and> q = f p"
  by (auto simp: in_set_zip)

lemma exact_mean_555: "exact_mean [5, 5, 5] = Fin 5"
  by (simp add: exact_mean_def fsum_def fl_Fin)

lemma exact_var1_555: "exact_var1 [5, 5, 5] = Fin 0"
  by (simp add: exact_var1_def exact_mean_def fsum_def fl_Fin fsub_def)

lemma exact_std1_555: "exact_std1 [5, 5, 5] = Fin 0"
  by (simp add: exact_std1_def exact_var1_555)

lemma fit_555:
  "fit_parameters example_env d ''gumbel'' ''auto'' [5, 5, 5] =
     Some [NpFloat (Fin 5), NpFloat (Fin 0)]"
  using fit_gumbel_auto [of example_env "[5, 5, 5]" 5 0 d]
  by (simp add: example_env_reductions exact_mean_555 exact_std1_555)

lemma direct_555: "use_direct_formula [NpFloat (Fin 5), NpFloat (Fin 0)] (Fin 5) (Fin 0)"
  by (simp add: use_direct_formula_def Let_def fl_Fin fsub_def)

lemma quantiles_555:
  "theoretical_quantiles E d ''gumbel'' [NpFloat (Fin 5), NpFloat (Fin 0)] (Fin 5) (Fin 0) P =
     Some (P, map (gumbel_direct (Fin 5) (Fin 0)) P)"
  by (simp add: theoretical_quantiles_def direct_555)

lemma gumbel_direct_flat:
  "0 < p \<Longrightarrow> p < 100 \<Longrightarrow> gumbel_direct (Fin 5) (Fin 0) p = Fin 5"
  by (simp add: gumbel_direct_def Let_def fl_Fin)

lemma flat_curve:
  "list_all (\<lambda>pt. Q pt = PyFloat (Fin 5))
     (fst (theoretical_curve_of
        (p_percent_positions, map (gumbel_direct (Fin 5) (Fin 0)) p_percent_positions)))"
proof -
  let ?PQ = "(p_percent_positions, map (gumbel_direct (Fin 5) (Fin 0)) p_percent_positions)"
  have s: "sorted_wrt (<) (fst ?PQ)"
    using p_percent_positions_strict by simp
  have "Q pt = PyFloat (Fin 5)" if "pt \<in> set (fst (theoretical_curve_of ?PQ))" for pt
  proof -
    from that have "pt \<in> set (fst (curve_loop (zip (fst ?PQ) (snd ?PQ))))"
      unfolding theoretical_curve_of_sorted(1) [OF s] .
    then obtain p q where
      pq: "(p, q) \<in> set (zip p_percent_positions
                         (map (gumbel_direct (Fin 5) (Fin 0)) p_percent_positions))"
      and pt: "pt = curve_point p q"
      unfolding curve_loop_map by auto
    from set_zip_map_same [OF pq]
    have "p \<in> set p_percent_positions" and q: "q = gumbel_direct (Fin 5) (Fin 0) p"
      by simp_all
    then have "0 < p \<and> p < 100"
      using p_percent_positions_range [of p] by (simp add: min_p_def max_p_def)
    then have "q = Fin 5" using q gumbel_direct_flat by simp
    then show ?thesis using pt by (simp add: fgt_def curve_point_def)
  qed
  then show ?thesis by (simp add: list_all_iff)
qed

text \<open>
  Claim C9, at the input that shows the defect: three equal values, Gumbel, the moments
  estimator. The call returns a result: the scale parameter is 0 and every point of the
  theoretical curve has the value 5.
\<close>

theorem equal_values_gumbel_returns_flat_curve:
  "\<exists>r. compute_frequency_curve example_env (example_service [1990, 1991, 1992] [5, 5, 5])
          ''gumbel'' ''max'' ''auto'' = Inr (Curve r) \<and>
       parameters r =
         [(''shape'', PyNone), (''loc'', NpFloat (Fin 5)), (''scale'', NpFloat (Fin 0))] \<and>
       list_all (\<lambda>pt. Q pt = PyFloat (Fin 5)) (theoretical_curve r)"
proof -
  let ?PQ = "(p_percent_positions, map (gumbel_direct (Fin 5) (Fin 0)) p_percent_positions)"
  let ?r = "frequency_curve_of example_env gumbel_r ''gumbel'' [5, 5, 5]
              [NpFloat (Fin 5), NpFloat (Fin 0)] ?PQ
              [(''shape'', PyNone), (''loc'', NpFloat (Fin 5)), (''scale'', NpFloat (Fin 0))]"
  have a: "compute_frequency_curve example_env (example_service [1990, 1991, 1992] [5, 5, 5])
          ''gumbel'' ''max'' ''auto'' =
        after_fit example_env gumbel_r ''gumbel'' [5, 5, 5] [NpFloat (Fin 5), NpFloat (Fin 0)]"
    using compute_example [of "[1990, 1991, 1992]" "[5, 5, 5]" "''max''"
      "''gumbel''" "\<lparr>name = ''Gumbel'', dist_impl = gumbel_r\<rparr>" "''auto''" example_env
      "[NpFloat (Fin 5), NpFloat (Fin 0)]"]
      fit_555 [of gumbel_r]
    by (simp add: distributions_def valid_methods_def)
  have q: "theoretical_quantiles example_env gumbel_r ''gumbel'' [NpFloat (Fin 5), NpFloat (Fin 0)]
             (np_mean example_env [5, 5, 5]) (np_std1 example_env [5, 5, 5])
             p_percent_positions = Some ?PQ"
    unfolding example_env_reductions exact_mean_555 exact_std1_555 by (rule quantiles_555)
  have c: "compute_frequency_curve example_env (example_service [1990, 1991, 1992] [5, 5, 5])
          ''gumbel'' ''max'' ''auto'' = Inr (Curve ?r)"
    unfolding a by (rule after_fit_Some [OF q extract_params_two])
  have p: "parameters ?r =
         [(''shape'', PyNone), (''loc'', NpFloat (Fin 5)), (''scale'', NpFloat (Fin 0))]"
    by (simp add: frequency_curve_of_def Let_def)
  have f: "list_all (\<lambda>pt. Q pt = PyFloat (Fin 5)) (theoretical_curve ?r)"
    unfolding curve_fields by (rule flat_curve)
  show ?thesis using c p f by (intro exI conjI)
qed

subsection \<open>Native values of the result\<close>

text \<open>
  Claim C10, at an input that shows the defect: scenario 1 of the specification (five
  years, Gumbel, method auto). The call succeeds, and the parameters of the result are the
  numpy scalars the estimator produced: \<^verbatim>\<open>extract_params(params)\<close> is returned without
  passing through \<^verbatim>\<open>_convert_to_python_type\<close>, so not every value of the result is a
  native number.
\<close>

theorem parameters_stay_numpy_scalars:
  "\<exists>r. compute_frequency_curve example_env
          (example_service [1990, 1991, 1992, 1993, 1994] [100, 150, 120, 200, 90])
          ''gumbel'' ''max'' ''auto'' = Inr (Curve r) \<and>
       parameters r =
         [(''shape'', PyNone),
          (''loc'', NpFloat (Fin (132 - euler_gamma * (sqrt 1970 * sqrt 6 / pi)))),
          (''scale'', NpFloat (Fin (sqrt 1970 * sqrt 6 / pi)))] \<and>
       \<not> list_all native_finite (result_values r)"
proof -
  let ?xs = "[100, 150, 120, 200, 90] :: real list"
  let ?ps = "[NpFloat (Fin (132 - euler_gamma * (sqrt 1970 * sqrt 6 / pi))),
              NpFloat (Fin (sqrt 1970 * sqrt 6 / pi))]"
  let ?pd = "[(''shape'', PyNone),
          (''loc'', NpFloat (Fin (132 - euler_gamma * (sqrt 1970 * sqrt 6 / pi)))),
          (''scale'', NpFloat (Fin (sqrt 1970 * sqrt 6 / pi)))]"
  obtain PQ where q: "theoretical_quantiles example_env gumbel_r ''gumbel'' ?ps
      (np_mean example_env ?xs) (np_std1 example_env ?xs) p_percent_positions = Some PQ"
    using theoretical_quantiles_gumbel by blast
  let ?r = "frequency_curve_of example_env gumbel_r ''gumbel'' ?xs ?ps PQ ?pd"
  have c: "compute_frequency_curve example_env
          (example_service [1990, 1991, 1992, 1993, 1994] [100, 150, 120, 200, 90])
          ''gumbel'' ''max'' ''auto'' = Inr (Curve ?r)"
    unfolding scenario1_after_fit by (rule after_fit_Some [OF q extract_params_two])
  have p: "parameters ?r = ?pd"
    by (simp add: frequency_curve_of_def Let_def)
  have n: "\<not> list_all native_finite (result_values ?r)"
    unfolding result_values_def p by simp
  show ?thesis using c p n by (intro exI conjI)
qed

subsection \<open>The estimation policy\<close>

lemma validate_params_acceptable:
  "validate_params ps = (if acceptable ps then Some ps else None)"
  by (auto simp: validate_params_def acceptable_def list_all_iff)

lemma compute_after_validation:
  assumes "agg_func \<in> set [''max'', ''min'', ''sum'', ''mean'']"
    and "distributions distribution_name = Some db"
    and "method \<in> set valid_methods"
    and "data ds = Some df" and "\<not> df_empty df"
    and "main_column ds = Some main_col" and "main_col \<in> set (columns df)"
    and "aggregated_series E df main_col agg_func = Some A"
    and "3 \<le> length (valid_values A)"
  shows "compute_frequency_curve E ds distribution_name agg_func method =
           (case fit_parameters E (dist_impl db) distribution_name method (valid_values A) of
              None \<Rightarrow> Inl (HTTPException 400 FitFailed)
            | Some params \<Rightarrow> after_fit E (dist_impl db) distribution_name (valid_values A) params)"
proof -
  have a: "A \<noteq> []" using assms(9) by (auto simp: valid_values_def)
  have v: "valid_values A \<noteq> []" "\<not> length (valid_values A) < 3" using assms(9) by auto
  show ?thesis
    using a v assms(1-8) unfolding compute_frequency_curve_def validate_agg_func_def
    by (simp add: Let_def split: option.splits)
qed

text \<open>
  Claim C5, as amended. When the moments method is selected: if the moments estimator is
  not applicable (it returns \<^verbatim>\<open>None\<close>) the parameters are those of \<^verbatim>\<open>dist.fit\<close>;
  otherwise they are the moments parameters and \<^verbatim>\<open>dist.fit\<close> is not called. The call
  fails with the 400 "cannot fit" error exactly when an estimator that was run raises or
  the parameters it gave are empty or not all finite; parameters of the moments estimator
  that are not finite are not retried with the likelihood fit. With acceptable parameters
  the call goes on to the rest of the computation (\<open>after_fit\<close>), which returns the result
  or ends in the 500 of the outer handler.
\<close>

theorem moments_fallback_policy:
  assumes "agg_func \<in> set [''max'', ''min'', ''sum'', ''mean'']"
    and "distributions distribution_name = Some db"
    and "method \<in> set valid_methods"
    and "data ds = Some df" and "\<not> df_empty df"
    and "main_column ds = Some main_col" and "main_col \<in> set (columns df)"
    and "aggregated_series E df main_col agg_func = Some A"
    and "3 \<le> length (valid_values A)"
    and "Qmax = valid_values A" and "d = dist_impl db"
    and "use_mom method distribution_name"
  shows "compute_frequency_curve E ds distribution_name agg_func method =
           (case fit_distribution_mom E distribution_name Qmax of
              MomNone \<Rightarrow>
                (case scipy_fit E d Qmax of
                   None \<Rightarrow> Inl (HTTPException 400 FitFailed)
                 | Some ps \<Rightarrow>
                     if acceptable ps then after_fit E d distribution_name Qmax ps
                     else Inl (HTTPException 400 FitFailed))
            | MomParams ps \<Rightarrow>
                if acceptable ps then after_fit E d distribution_name Qmax ps
                else Inl (HTTPException 400 FitFailed)
            | MomRaises \<Rightarrow> Inl (HTTPException 400 FitFailed))"
  unfolding compute_after_validation [OF assms(1-9)] assms(10,11)
  using assms(12)
  by (simp add: fit_parameters_def validate_params_acceptable
      split: mom_result.splits option.splits)

lemma mom_pearson3_None: "mom_pearson3 Qmax mean_Q std_Q = MomNone"
  by (simp add: mom_pearson3_def Let_def)

lemma example_service_facts:
  assumes "distinct ys" and "ys \<noteq> []" and "xs \<noteq> []"
  shows "data (example_service ys xs) = Some (the (data (example_service ys xs)))"
    and "\<not> df_empty (the (data (example_service ys xs)))"
    and "main_column (example_service ys xs) = Some ''Value''"
    and "''Value'' \<in> set (columns (the (data (example_service ys xs))))"
  using assms
  by (simp_all add: example_service_def df_empty_def)

lemma example_aggregated:
  assumes "distinct ys" and "ys \<noteq> []" and "xs \<noteq> []"
  shows "aggregated_series E (the (data (example_service ys xs))) ''Value'' agg_func =
           Some (map Fin xs)"
  using assms
  by (simp add: example_service_def aggregated_series_def
      year_counts_max_distinct filter_isfinite_Fin)

theorem moments_fallback_policy_witness:
  "compute_frequency_curve example_env
     (example_service [1990, 1991, 1992, 1993, 1994] [100, 150, 120, 200, 90])
     ''pearson3'' ''max'' ''mom'' =
   after_fit example_env pearson3 ''pearson3'' [100, 150, 120, 200, 90]
     [NpFloat (Fin 1), NpFloat (Fin 1)]"
proof -
  let ?ys = "[1990, 1991, 1992, 1993, 1994] :: int list"
  let ?xs = "[100, 150, 120, 200, 90] :: real list"
  let ?db = "\<lparr>name = ''Pearson3'', dist_impl = pearson3\<rparr>"
  have ok: "distinct ?ys" "?ys \<noteq> []" "?xs \<noteq> []" by simp_all
  note f = example_service_facts [OF ok]
  note a = example_aggregated [OF ok, of example_env "''max''"]
  have v: "?xs = valid_values (map Fin ?xs)"
    by (simp add: valid_values_def)
  have n: "3 \<le> length (valid_values (map Fin ?xs))"
    by (simp add: valid_values_def)
  have m: "fit_distribution_mom example_env ''pearson3'' ?xs = MomNone"
    by (simp add: fit_distribution_mom_def Let_def mom_pearson3_None)
  have "compute_frequency_curve example_env (example_service ?ys ?xs) ''pearson3'' ''max'' ''mom'' =
           (case fit_distribution_mom example_env ''pearson3'' ?xs of
              MomNone \<Rightarrow>
                (case scipy_fit example_env pearson3 ?xs of
                   None \<Rightarrow> Inl (HTTPException 400 FitFailed)
                 | Some ps \<Rightarrow>
                     if acceptable ps then after_fit example_env pearson3 ''pearson3'' ?xs ps
                     else Inl (HTTPException 400 FitFailed))
            | MomParams ps \<Rightarrow>
                if acceptable ps then after_fit example_env pearson3 ''pearson3'' ?xs ps
                else Inl (HTTPException 400 FitFailed)
            | MomRaises \<Rightarrow> Inl (HTTPException 400 FitFailed))"
    by (rule moments_fallback_policy [where db = ?db, OF _ _ _ f(1) f(2) f(3) f(4) a n v])
       (simp_all add: distributions_def valid_methods_def use_mom_def)
  then show ?thesis
    unfolding m by (simp add: example_env_def acceptable_def)
qed

lemma huge_facts:
  "1 < huge" "50 + 50 * huge \<le> DBL_MAX" "(huge - 1) / 2 * ((huge - 1) / 2) \<le> DBL_MAX"
  "DBL_MAX < 100 * ((huge - 1) / 2 * ((huge - 1) / 2))"
  unfolding huge_def DBL_MAX_def by simp_all

lemma fl_in_range: "- DBL_MAX \<le> r \<Longrightarrow> r \<le> DBL_MAX \<Longrightarrow> fl r = Fin r"
  by (simp add: fl_def)

lemma fl_above: "DBL_MAX < r \<Longrightarrow> fl r = PInf"
  by (simp add: fl_def)

lemma half_in_range:
  assumes "1 < (h::real)" and "50 + 50 * h \<le> D" and "0 < D"
  shows "- D \<le> (1 + h) / 2" "(1 + h) / 2 \<le> D" "- D \<le> (h - 1) / 2" "(h - 1) / 2 \<le> D"
    "- D \<le> - ((h - 1) / 2)" "- ((h - 1) / 2) \<le> D"
  using assms by (simp_all add: field_simps)

lemma foldl_fadd_PInf: "foldl fadd PInf (map Fin xs) = PInf"
  by (induction xs) auto

text \<open>A sum of values that are not negative: exact while it fits, infinite from then on.\<close>

lemma foldl_fadd_nonneg:
  assumes "\<forall>x \<in> set xs. 0 \<le> x" and "0 \<le> a" and "a \<le> DBL_MAX"
  shows "foldl fadd (Fin a) (map Fin xs) = fl (a + sum_list xs)"
  using assms
proof (induction xs arbitrary: a)
  case Nil
  then show ?case using DBL_MAX_pos by (simp add: fl_in_range)
next
  case (Cons x xs)
  have x: "0 \<le> x" and xs: "\<forall>x \<in> set xs. 0 \<le> x" using Cons.prems(1) by auto
  have s: "0 \<le> sum_list xs" using xs by (intro sum_list_nonneg) auto
  show ?case
  proof (cases "a + x \<le> DBL_MAX")
    case True
    have "fl (a + x) = Fin (a + x)"
      using True x Cons.prems(2) DBL_MAX_pos by (intro fl_in_range) linarith+
    then show ?thesis
      using Cons.IH [OF xs _ True] x Cons.prems(2) by (simp add: add.assoc)
  next
    case False
    then have "fl (a + x) = PInf" by (intro fl_above) linarith
    moreover have "fl (a + (x + sum_list xs)) = PInf"
      using False s by (intro fl_above) linarith
    ultimately show ?thesis by (simp add: foldl_fadd_PInf)
  qed
qed

lemma fsum_nonneg: "\<forall>x \<in> set xs. 0 \<le> x \<Longrightarrow> fsum (map Fin xs) = fl (sum_list xs)"
  unfolding fsum_def using foldl_fadd_nonneg [of xs 0] DBL_MAX_pos by simp

lemma exact_mean_huge:
  "exact_mean (replicate 50 1 @ replicate 50 huge) = Fin ((1 + huge) / 2)"
proof -
  have "fsum (map Fin (replicate 50 1 @ replicate 50 huge)) =
          fl (sum_list (replicate 50 1 @ replicate 50 huge))"
    using huge_facts(1) by (intro fsum_nonneg) auto
  also have "sum_list (replicate 50 1 @ replicate 50 huge) = 50 + 50 * huge"
    by (simp add: sum_list_replicate)
  also have "fl (50 + 50 * huge) = Fin (50 + 50 * huge)"
    using huge_facts(1,2) DBL_MAX_pos by (intro fl_in_range) linarith+
  finally have s: "fsum (map Fin (replicate 50 1 @ replicate 50 huge)) = Fin (50 + 50 * huge)" .
  have e: "(50 + 50 * huge) / 100 = (1 + huge) / 2" by simp
  have n: "real (length (replicate 50 (1::real) @ replicate 50 huge)) = 100" by simp
  have "fdiv (Fin (50 + 50 * huge)) (Fin 100) = fl ((50 + 50 * huge) / 100)" by simp
  also have "\<dots> = Fin ((1 + huge) / 2)"
    unfolding e using half_in_range(1,2) [OF huge_facts(1,2) DBL_MAX_pos] by (rule fl_in_range)
  finally show ?thesis
    unfolding exact_mean_def s n .
qed

lemma exact_var1_huge: "exact_var1 (replicate 50 1 @ replicate 50 huge) = PInf"
proof -
  define c where "c = (huge - 1) / 2 * ((huge - 1) / 2)"
  have c: "0 \<le> c" "c \<le> DBL_MAX" "DBL_MAX < 100 * c"
    using huge_facts by (simp_all add: c_def)
  note r = half_in_range(3-6) [OF huge_facts(1,2) DBL_MAX_pos]
  have e1: "1 + - ((1 + huge) / 2) = - ((huge - 1) / 2)" by (simp add: field_simps)
  have 1: "fsub (Fin 1) (Fin ((1 + huge) / 2)) = Fin (- ((huge - 1) / 2))"
    by (simp only: fsub_def fneg.simps fadd.simps e1 fl_in_range [OF r(3,4)])
  have e2: "huge + - ((1 + huge) / 2) = (huge - 1) / 2" by (simp add: field_simps)
  have 2: "fsub (Fin huge) (Fin ((1 + huge) / 2)) = Fin ((huge - 1) / 2)"
    by (simp only: fsub_def fneg.simps fadd.simps e2 fl_in_range [OF r(1,2)])
  have flc: "fl c = Fin c" using c(1,2) DBL_MAX_pos by (intro fl_in_range) linarith+
  have 3: "fmul (Fin (- ((huge - 1) / 2))) (Fin (- ((huge - 1) / 2))) = Fin c"
    using flc by (simp add: c_def)
  have 4: "fmul (Fin ((huge - 1) / 2)) (Fin ((huge - 1) / 2)) = Fin c"
    using flc by (simp add: c_def)
  have sq: "map (\<lambda>y. fmul y y)
              (map (\<lambda>x. fsub (Fin x) (Fin ((1 + huge) / 2))) (replicate 50 1 @ replicate 50 huge)) =
            map Fin (replicate 100 c)"
    by (simp only: map_append map_replicate 1 2 3 4 replicate_add [symmetric]) simp
  have "fsum (map Fin (replicate 100 c)) = fl (sum_list (replicate 100 c))"
    using c(1) by (intro fsum_nonneg) auto
  also have "\<dots> = PInf"
    using c(3) by (intro fl_above) (simp add: sum_list_replicate)
  finally have s: "fsum (map Fin (replicate 100 c)) = PInf" .
  show ?thesis
    unfolding exact_var1_def Let_def exact_mean_huge sq s
    by (simp add: signed_inf_def)
qed

lemma mom_gumbel_overflow: "mom_gumbel (Fin m) PInf = MomParams [NpFloat NInf, NpFloat PInf]"
  by (simp add: mom_gumbel_def Let_def signed_inf_def euler_gamma_def fsub_def)

lemma fit_mom_huge:
  "fit_distribution_mom example_env ''gumbel'' (replicate 50 1 @ replicate 50 huge) =
     MomParams [NpFloat NInf, NpFloat PInf]"
  unfolding fit_distribution_mom_def Let_def example_env_reductions exact_std1_def
    exact_var1_huge exact_mean_huge
  by (simp add: mom_gumbel_overflow)

text \<open>
  Claim C5 as stated fails: for a record of 100 years, half of them with the value 1 and
  half with the value \<open>huge\<close>, and the Gumbel moments fit, the sum of the squared
  deviations overflows, the sample standard deviation is infinite and the moments
  parameters are \<open>(-inf, inf)\<close>. The likelihood fit of this environment gives acceptable
  parameters, and the call fails all the same: the likelihood fit is not tried.
\<close>

theorem nonfinite_moments_not_retried:
  "fit_distribution_mom example_env ''gumbel'' (replicate 50 1 @ replicate 50 huge) =
     MomParams [NpFloat NInf, NpFloat PInf] \<and>
   scipy_fit example_env gumbel_r (replicate 50 1 @ replicate 50 huge) =
     Some [NpFloat (Fin 1), NpFloat (Fin 1)] \<and>
   acceptable [NpFloat (Fin 1), NpFloat (Fin 1)] \<and>
   compute_frequency_curve example_env
     (example_service (map (\<lambda>i. 1900 + int i) [0..<100])
        (replicate 50 1 @ replicate 50 huge)) ''gumbel'' ''max'' ''mom'' =
     Inl (HTTPException 400 FitFailed)"
proof -
  let ?ys = "map (\<lambda>i. 1900 + int i) [0..<100]"
  let ?xs = "replicate 50 1 @ replicate 50 huge"
  let ?db = "\<lparr>name = ''Gumbel'', dist_impl = gumbel_r\<rparr>"
  have d: "distinct ?ys" unfolding distinct_map by (simp add: inj_on_def del: upt_rec_numeral)
  have ok: "?ys \<noteq> []" "?xs \<noteq> []" by simp_all
  note f = example_service_facts [OF d ok]
  note a = example_aggregated [OF d ok, of example_env "''max''"]
  have v: "valid_values (map Fin ?xs) = ?xs"
    using huge_facts(1) by (intro valid_values_Fin) auto
  have n: "3 \<le> length (valid_values (map Fin ?xs))"
    unfolding v by simp
  have fp: "fit_parameters example_env gumbel_r ''gumbel'' ''mom'' ?xs = None"
    by (simp add: fit_parameters_def use_mom_def fit_mom_huge validate_params_def)
  have "compute_frequency_curve example_env (example_service ?ys ?xs) ''gumbel'' ''max'' ''mom'' =
          (case fit_parameters example_env (dist_impl ?db) ''gumbel'' ''mom''
                  (valid_values (map Fin ?xs)) of
              None \<Rightarrow> Inl (HTTPException 400 FitFailed)
            | Some params \<Rightarrow> after_fit example_env (dist_impl ?db) ''gumbel''
                               (valid_values (map Fin ?xs)) params)"
    by (rule compute_after_validation [of "''max''" "''gumbel''" ?db "''mom''",
        OF _ _ _ f(1) f(2) f(3) f(4) a n])
       (simp_all add: distributions_def valid_methods_def)
  then have c: "compute_frequency_curve example_env (example_service ?ys ?xs)
                  ''gumbel'' ''max'' ''mom'' = Inl (HTTPException 400 FitFailed)"
    unfolding v by (simp add: fp)
  have s: "scipy_fit example_env gumbel_r ?xs = Some [NpFloat (Fin 1), NpFloat (Fin 1)]"
    by (simp add: example_env_def)
  have acc: "acceptable [NpFloat (Fin 1), NpFloat (Fin 1)]"
    by (simp add: acceptable_def)
  show ?thesis using fit_mom_huge s acc c by (intro conjI)
qed


subsection \<open>The order of the two bounds of the band\<close>

lemma cross_mono: "cross L U \<Longrightarrow> set L' \<subseteq> set L \<Longrightarrow> set U' \<subseteq> set U \<Longrightarrow> cross L' U'"
  unfolding cross_def by blast

lemma dict_of_SomeD: "dict_of L p = Some v \<Longrightarrow> (p, v) \<in> set L"
  unfolding dict_of_def by (auto dest: map_of_SomeD)

lemma dict_of_defined: "p \<in> fst ` set L \<Longrightarrow> \<exists>v. dict_of L p = Some v"
  unfolding dict_of_def by (cases "map_of (rev L) p") (auto simp: map_of_eq_None_iff)

lemma dict_of_the: "p \<in> fst ` set L \<Longrightarrow> (p, the (dict_of L p)) \<in> set L"
  using dict_of_defined [of p L] dict_of_SomeD [of L p] by auto

lemma set_common_keys: "set (common_keys L U) = fst ` set L \<inter> fst ` set U"
  unfolding common_keys_def by simp

lemma points_at_subset:
  assumes "set ps \<subseteq> fst ` set L \<inter> fst ` set U"
  shows "set (fst (points_at L U ps)) \<subseteq> set L" and "set (snd (points_at L U ps)) \<subseteq> set U"
  using assms dict_of_the unfolding points_at_def by fastforce+

lemma points_at_length: "length (fst (points_at L U ps)) = length (snd (points_at L U ps))"
  by (simp add: points_at_def)

lemma temp_points_cross: "cross (fst (temp_points L U)) (snd (temp_points L U))"
  unfolding temp_points_def Let_def points_at_def cross_def ordered_pair_def
  by auto

lemma temp_points_length: "length (fst (temp_points L U)) = length (snd (temp_points L U))"
  by (simp add: temp_points_def Let_def points_at_length)

lemma every_nth_index:
  assumes "0 < k" and "(j::nat) < (n + k - 1) div k"
  shows "j * k < n"
proof -
  have "Suc j \<le> (n + k - 1) div k" using assms(2) by simp
  then have "Suc j * k \<le> n + k - 1"
    using assms(1) by (simp add: less_eq_div_iff_mult_less_eq)
  then show ?thesis using assms(1) by (cases k) auto
qed

lemma set_every_nth: "0 < k \<Longrightarrow> set (every_nth k xs) \<subseteq> set xs"
  unfolding every_nth_def using every_nth_index [of k _ "length xs"] by auto

lemma set_ensure_ends: "set sel \<subseteq> {0..<k} \<Longrightarrow> set (ensure_ends k sel) \<subseteq> {0..<k}"
  by (auto simp: ensure_ends_def Let_def)

lemma set_selected_indices: "set (selected_indices lo hi ps) \<subseteq> {0..<length ps}"
proof -
  let ?idx = "[0..<length ps]"
  have f: "set (filter P ?idx) \<subseteq> {0..<length ps}" for P by auto
  have e: "set (every_nth k (filter P ?idx)) \<subseteq> {0..<length ps}" if "0 < k" for k P
    using set_every_nth [OF that, of "filter P ?idx"] f [of P] by blast
  have m: "0 < max 1 (a :: nat)" for a by simp
  have i: "set (if c then every_nth (max 1 a) (filter P ?idx) else filter P ?idx)
             \<subseteq> {0..<length ps}" for c a P
    using e [OF m] f by (cases c) simp_all
  have u: "set (sorted_list_of_set (set (xs @ ys @ zs))) \<subseteq> {0..<length ps}"
    if "set xs \<subseteq> {0..<length ps}" "set ys \<subseteq> {0..<length ps}" "set zs \<subseteq> {0..<length ps}"
    for xs ys zs :: "nat list"
    using that by simp
  show ?thesis
    unfolding selected_indices_def Let_def
    by (rule set_ensure_ends, rule u, rule i, rule e, simp, rule e, simp)
qed

lemma adaptive_sample_subset:
  assumes "length (fst temp) = length (snd temp)"
  shows "set (fst (adaptive_sample lo hi temp)) \<subseteq> set (fst temp)"
    and "set (snd (adaptive_sample lo hi temp)) \<subseteq> set (snd temp)"
proof -
  have "i < length (fst temp)" if "i \<in> set (selected_indices lo hi (map fst (fst temp)))" for i
    using that set_selected_indices [of lo hi "map fst (fst temp)"] by auto
  then show "set (fst (adaptive_sample lo hi temp)) \<subseteq> set (fst temp)"
    and "set (snd (adaptive_sample lo hi temp)) \<subseteq> set (snd temp)"
    using assms unfolding adaptive_sample_def Let_def by auto
qed

lemma interpolated_band_cross:
  assumes "interpolated_band E L U ps = Some band"
  shows "cross (fst band) (snd band)"
proof -
  from assms obtain lf uf ps' where
    band: "band = points_at (map (\<lambda>p. (p, lf p)) (filter (\<lambda>p. ordered_pair (lf p) (uf p)) ps'))
                   (map (\<lambda>p. (p, uf p)) (filter (\<lambda>p. ordered_pair (lf p) (uf p)) ps'))
                   (common_keys (map (\<lambda>p. (p, lf p)) (filter (\<lambda>p. ordered_pair (lf p) (uf p)) ps'))
                      (map (\<lambda>p. (p, uf p)) (filter (\<lambda>p. ordered_pair (lf p) (uf p)) ps')))"
    unfolding interpolated_band_def Let_def ordered_pair_def
    by (auto split: option.splits)
  let ?L = "map (\<lambda>p. (p, lf p)) (filter (\<lambda>p. ordered_pair (lf p) (uf p)) ps')"
  let ?U = "map (\<lambda>p. (p, uf p)) (filter (\<lambda>p. ordered_pair (lf p) (uf p)) ps')"
  have c: "cross ?L ?U" unfolding cross_def by auto
  have s: "set (common_keys ?L ?U) \<subseteq> fst ` set ?L \<inter> fst ` set ?U"
    unfolding set_common_keys by simp
  show ?thesis
    unfolding band using c points_at_subset [OF s] by (rule cross_mono)
qed

lemma fill_gaps_cross:
  assumes "cross (fst final) (snd final)"
  shows "cross (fst (fill_gaps E final)) (snd (fill_gaps E final))"
proof -
  let ?L = "fst final" and ?U = "snd final"
  have s: "set (common_keys ?L ?U) \<subseteq> fst ` set ?L \<inter> fst ` set ?U"
    unfolding set_common_keys by simp
  have p: "cross (fst (points_at ?L ?U (common_keys ?L ?U))) (snd (points_at ?L ?U (common_keys ?L ?U)))"
    using assms points_at_subset [OF s] by (rule cross_mono)
  show ?thesis
    unfolding fill_gaps_def Let_def
    using p assms interpolated_band_cross
    by (auto split: option.splits)
qed

lemma assemble_band_cross:
  "\<exists>L U. cross L U \<and>
     assemble_band E lo hi ps bounds valid_mask = \<lparr>lower = map to_point L, upper = map to_point U\<rparr>"
proof -
  define lp where "lp = sort_key fst (select_mask (zip ps (map fst bounds)) valid_mask)"
  define up where "up = sort_key fst (select_mask (zip ps (map snd bounds)) valid_mask)"
  define temp where "temp = temp_points lp up"
  define smp where "smp = adaptive_sample lo hi temp"
  define final where "final = (sort_key fst (fst smp), sort_key fst (snd smp))"
  have 1: "cross (fst temp) (snd temp)"
    unfolding temp_def by (rule temp_points_cross)
  have 2: "cross (fst smp) (snd smp)"
    unfolding smp_def
    using 1 adaptive_sample_subset [OF temp_points_length [of lp up, folded temp_def]]
    by (rule cross_mono)
  have 3: "cross (fst final) (snd final)"
    unfolding final_def using 2 by (rule cross_mono) simp_all
  have 4: "cross (fst (fill_gaps E final)) (snd (fill_gaps E final))"
    using 3 by (rule fill_gaps_cross)
  have "assemble_band E lo hi ps bounds valid_mask =
          \<lparr>lower = map to_point (fst (fill_gaps E final)),
           upper = map to_point (snd (fill_gaps E final))\<rparr>"
    unfolding assemble_band_def Let_def final_def smp_def temp_def lp_def up_def ..
  then show ?thesis using 4 by blast
qed

lemma confidence_intervals_of_SomeD:
  assumes "confidence_intervals_of E d dn Qmax ps P amax = Some band"
  shows "\<exists>lo hi P' bounds valid_mask. band = assemble_band E lo hi P' bounds valid_mask"
proof -
  from assms obtain lo hi P' Qt lc uc where
    "band_of_percentiles E dn lo hi P' Qt lc uc = Some band"
    unfolding confidence_intervals_of_def Let_def by (auto split: if_splits)
  then have "band = assemble_band E lo hi P' (corrected_bounds dn Qt lc uc)
               (band_valid_mask dn lo hi P' Qt (corrected_bounds dn Qt lc uc))"
    unfolding band_of_percentiles_def Let_def by (auto split: if_splits)
  then show ?thesis by blast
qed

lemma ci_fields:
  "confidence_intervals (frequency_curve_of E d dn Qmax ps PQ pd) =
     confidence_intervals_of E d dn Qmax ps (fst PQ)
       (py_min (fmul (Fin (Max (set Qmax))) (Fin 10000)) (Fin (10 ^ 10)))"
  by (simp add: frequency_curve_of_def Let_def)

lemma swap_inverted_ordered: "\<not> fgt (fst (swap_inverted lu)) (snd (swap_inverted lu))"
proof (cases "fgt (fst lu) (snd lu)")
  case True
  then have "\<not> fgt (snd lu) (fst lu)"
    by (cases "fst lu"; cases "snd lu") (auto simp: fgt_def)
  then show ?thesis using True by (simp add: swap_inverted_def)
next
  case False
  then show ?thesis by (simp add: swap_inverted_def)
qed

lemma flt_fle: "flt a b \<Longrightarrow> fle a b"
  by (cases a; cases b) auto

text \<open>
  Claim C3. In every band a call returns, a point of the lower sequence and a point of the
  upper sequence with the same \<^verbatim>\<open>P_percent\<close> have \<open>lower \<le> upper\<close> (the code even
  keeps only positions with \<open>lower < upper\<close>, both finite and the lower one not
  negative); and the swap pass leaves no position with \<open>lower > upper\<close>.
\<close>

theorem confidence_band_ordered:
  assumes "compute_frequency_curve E ds distribution_name agg_func method = Inr (Curve r)"
    and "confidence_intervals r = Some band"
  shows "(\<forall>pl \<in> set (lower band). \<forall>pu \<in> set (upper band).
            P_percent pl = P_percent pu \<longrightarrow>
              fle (num_of (Q pl)) (num_of (Q pu)) \<and> flt (num_of (Q pl)) (num_of (Q pu)) \<and>
              isfinite (num_of (Q pl)) \<and> isfinite (num_of (Q pu))) \<and>
         (\<forall>lu. \<not> fgt (fst (swap_inverted lu)) (snd (swap_inverted lu)))"
proof -
  from compute_CurveD [OF assms(1)] obtain db :: distribution_base and A params PQ params_dict
    where r: "r = frequency_curve_of E (dist_impl db) distribution_name (valid_values A) params PQ
                    params_dict"
    by blast
  from assms(2) have "\<exists>lo hi P' bounds valid_mask. band = assemble_band E lo hi P' bounds valid_mask"
    unfolding r ci_fields by (rule confidence_intervals_of_SomeD)
  then obtain lo hi P' bounds valid_mask where
    b0: "band = assemble_band E lo hi P' bounds valid_mask"
    by (elim exE)
  from assemble_band_cross [of E lo hi P' bounds valid_mask] obtain L U where c: "cross L U"
    and band: "band = \<lparr>lower = map to_point L, upper = map to_point U\<rparr>"
    unfolding b0 by (elim exE conjE)
  have o: "fle (num_of (Q pl)) (num_of (Q pu)) \<and> flt (num_of (Q pl)) (num_of (Q pu)) \<and>
              isfinite (num_of (Q pl)) \<and> isfinite (num_of (Q pu))"
    if "pl \<in> set (lower band)" "pu \<in> set (upper band)" "P_percent pl = P_percent pu" for pl pu
  proof -
    from that(1,2) obtain a b where a: "a \<in> set L" "pl = to_point a"
      and b: "b \<in> set U" "pu = to_point b"
      unfolding band by auto
    from that(3) a(2) b(2) have "fst a = fst b" by (simp add: to_point_def)
    with c a(1) b(1) have "ordered_pair (snd a) (snd b)" unfolding cross_def by blast
    then show ?thesis
      unfolding a(2) b(2) by (simp add: to_point_def ordered_pair_def flt_fle)
  qed
  show ?thesis
  proof (intro conjI ballI impI allI)
    fix pl pu
    assume "pl \<in> set (lower band)" "pu \<in> set (upper band)" "P_percent pl = P_percent pu"
    from o [OF this]
    show "fle (num_of (Q pl)) (num_of (Q pu))" "flt (num_of (Q pl)) (num_of (Q pu))"
      "isfinite (num_of (Q pl))" "isfinite (num_of (Q pu))"
      by simp_all
  next
    fix lu
    show "\<not> fgt (fst (swap_inverted lu)) (snd (swap_inverted lu))"
      by (rule swap_inverted_ordered)
  qed
qed

subsection \<open>When the band is absent\<close>






subsection \<open>Independence of the completion order\<close>

lemma mset_concat_map_cong:
  assumes "mset xs = mset ys"
  shows "mset (concat (map g xs)) = mset (concat (map g ys))"
proof -
  have "mset (concat (map g zs)) = sum_mset (image_mset (\<lambda>z. mset (g z)) (mset zs))" for zs
    by (induction zs) simp_all
  then show ?thesis using assms by simp
qed

lemma sort_cong_mset:
  assumes "mset xs = mset (ys :: real list)"
  shows "sort xs = sort ys"
proof -
  have "sort xs = sorted_list_of_multiset (mset xs)" by simp
  also have "\<dots> = sorted_list_of_multiset (mset ys)" by (simp only: assms)
  also have "\<dots> = sort ys" by simp
  finally show ?thesis .
qed

lemma percentile_linear_cong:
  "mset xs = mset ys \<Longrightarrow> percentile_linear xs q = percentile_linear ys q"
  unfolding percentile_linear_def by (simp only: sort_cong_mset [of xs ys])

lemma nanpercentile_cong:
  assumes "mset rows = mset rows'"
  shows "nanpercentile rows k q = nanpercentile rows' k q"
proof -
  have "percentile_linear (column rows j) q = percentile_linear (column rows' j) q" for j
    unfolding column_def
    by (rule percentile_linear_cong, rule mset_concat_map_cong, rule assms)
  then show ?thesis unfolding nanpercentile_def by simp
qed

text \<open>
  The surviving iterations, whatever the order in which the pool delivers them, are those
  of the sequential run, as a multiset.
\<close>

lemma run_bootstrap_sequential:
  assumes "completion_ok E c"
  shows "mset (run_bootstrap (E\<lparr>pool_completion := c\<rparr>) w k) =
         mset (run_bootstrap (E\<lparr>pool_completion := (\<lambda>k. None)\<rparr>) w k)"
proof (cases "c k")
  case None
  then show ?thesis by (simp add: run_bootstrap_def)
next
  case (Some order)
  let ?seeds = "random_seeds E k"
  from assms Some have m: "mset order = mset [0..<length ?seeds]"
    unfolding completion_ok_def by (auto dest: spec [of _ k])
  have "mset (filter (\<lambda>i. i < length ?seeds) order) = mset [0..<length ?seeds]"
  proof -
    have "mset (filter (\<lambda>i. i < length ?seeds) order) =
          mset (filter (\<lambda>i. i < length ?seeds) [0..<length ?seeds])"
      by (simp only: mset_filter m)
    also have "filter (\<lambda>i. i < length ?seeds) [0..<length ?seeds] = [0..<length ?seeds]"
      by (rule filter_True) simp
    finally show ?thesis .
  qed
  then have 1: "mset (map (\<lambda>i. w (?seeds ! i)) (filter (\<lambda>i. i < length ?seeds) order)) =
             mset (map (\<lambda>i. w (?seeds ! i)) [0..<length ?seeds])"
    by (simp only: mset_map)
  have 2: "map (\<lambda>i. w (?seeds ! i)) [0..<length ?seeds] = map w ?seeds"
    using arg_cong [OF map_nth [of ?seeds], of "map w"] by (simp add: comp_def del: map_nth)
  let ?g = "\<lambda>r. case r of Some a \<Rightarrow> [a] | None \<Rightarrow> []"
  have r1: "run_bootstrap (E\<lparr>pool_completion := c\<rparr>) w k =
            concat (map ?g (map (\<lambda>i. w (?seeds ! i)) (filter (\<lambda>i. i < length ?seeds) order)))"
    using Some by (simp add: run_bootstrap_def Let_def)
  have r0: "run_bootstrap (E\<lparr>pool_completion := (\<lambda>k. None)\<rparr>) w k =
            concat (map ?g (map w ?seeds))"
    by (simp add: run_bootstrap_def Let_def)
  show ?thesis
    unfolding r1 r0 using 1 [unfolded 2] by (rule mset_concat_map_cong)
qed

text \<open>Only the run of the pool reads the completion order.\<close>

lemma pool_free_aggregated:
  "aggregated_series (E\<lparr>pool_completion := c\<rparr>) df col agg = aggregated_series E df col agg"
  by (simp add: aggregated_series_def)

lemma pool_free_fit:
  "fit_parameters (E\<lparr>pool_completion := c\<rparr>) d dn m Qmax = fit_parameters E d dn m Qmax"
  by (simp add: fit_parameters_def fit_distribution_mom_def
      cong: option.case_cong mom_result.case_cong)

lemma pool_free_quantiles:
  "theoretical_quantiles (E\<lparr>pool_completion := c\<rparr>) d dn ps mu sd P =
     theoretical_quantiles E d dn ps mu sd P"
  by (simp add: theoretical_quantiles_def ppf_curve_def)

lemma pool_free_warnings:
  "quality_warnings_of (E\<lparr>pool_completion := c\<rparr>) d dn ps Qmax cv cs k =
     quality_warnings_of E d dn ps Qmax cv cs k"
  by (simp add: quality_warnings_of_def validity_warning_def)

lemma pool_free_worker:
  "bootstrap_iteration_worker (E\<lparr>pool_completion := c\<rparr>) seed Qmax n dn pv Qref amax =
     bootstrap_iteration_worker E seed Qmax n dn pv Qref amax"
  by (simp add: bootstrap_iteration_worker_def cong: option.case_cong)

lemma pool_free_interpolated:
  "interpolated_band (E\<lparr>pool_completion := c\<rparr>) L U ps = interpolated_band E L U ps"
  by (simp add: interpolated_band_def cong: option.case_cong)

lemma pool_free_assemble:
  "assemble_band (E\<lparr>pool_completion := c\<rparr>) lo hi P bounds valid_mask =
     assemble_band E lo hi P bounds valid_mask"
  by (simp add: assemble_band_def fill_gaps_def pool_free_interpolated Let_def)

lemma pool_free_band:
  "band_of_percentiles (E\<lparr>pool_completion := c\<rparr>) dn lo hi P Qt lc uc =
     band_of_percentiles E dn lo hi P Qt lc uc"
  by (simp add: band_of_percentiles_def pool_free_assemble Let_def)

lemmas pool_free = pool_free_aggregated pool_free_fit pool_free_quantiles pool_free_warnings
  pool_free_worker pool_free_band

lemma bootstrap_quantiles_of_sequential:
  assumes "completion_ok E c"
  shows "mset (bootstrap_quantiles_of (E\<lparr>pool_completion := c\<rparr>) d dn Qmax ps P amax) =
         mset (bootstrap_quantiles_of (E\<lparr>pool_completion := (\<lambda>k. None)\<rparr>) d dn Qmax ps P amax)"
  unfolding bootstrap_quantiles_of_def Let_def pool_free
  by (simp add: run_bootstrap_sequential [OF assms])

lemma confidence_intervals_of_sequential:
  assumes "completion_ok E c"
  shows "confidence_intervals_of (E\<lparr>pool_completion := c\<rparr>) d dn Qmax ps P amax =
         confidence_intervals_of (E\<lparr>pool_completion := (\<lambda>k. None)\<rparr>) d dn Qmax ps P amax"
proof -
  let ?b = "\<lambda>c. bootstrap_quantiles_of (E\<lparr>pool_completion := c\<rparr>) d dn Qmax ps
                   (ci_positions P) amax"
  have m: "mset (?b c) = mset (?b (\<lambda>k. None))"
    by (rule bootstrap_quantiles_of_sequential [OF assms])
  have l: "length (?b c) = length (?b (\<lambda>k. None))"
    using m by (rule mset_eq_length)
  have n: "nanpercentile (?b c) k q = nanpercentile (?b (\<lambda>k. None)) k q" for k q
    using m by (rule nanpercentile_cong)
  have e: "?b c = [] \<longleftrightarrow> ?b (\<lambda>k. None) = []"
    using l by (simp only: length_0_conv [symmetric])
  show ?thesis
    by (simp add: confidence_intervals_of_def Let_def pool_free e n)
qed

lemma frequency_curve_of_sequential:
  assumes "completion_ok E c"
  shows "frequency_curve_of (E\<lparr>pool_completion := c\<rparr>) d dn Qmax ps PQ pd =
         frequency_curve_of (E\<lparr>pool_completion := (\<lambda>k. None)\<rparr>) d dn Qmax ps PQ pd"
  by (simp add: frequency_curve_of_def Let_def pool_free
      confidence_intervals_of_sequential [OF assms])

lemma after_fit_sequential:
  assumes "completion_ok E c"
  shows "after_fit (E\<lparr>pool_completion := c\<rparr>) d dn Qmax ps =
         after_fit (E\<lparr>pool_completion := (\<lambda>k. None)\<rparr>) d dn Qmax ps"
  by (simp add: after_fit_def pool_free frequency_curve_of_sequential [OF assms]
      cong: option.case_cong)

lemma compute_sequential:
  assumes "completion_ok E c"
  shows "compute_frequency_curve (E\<lparr>pool_completion := c\<rparr>) ds dn agg m =
         compute_frequency_curve (E\<lparr>pool_completion := (\<lambda>k. None)\<rparr>) ds dn agg m"
  by (simp add: compute_frequency_curve_def Let_def pool_free after_fit_sequential [OF assms]
      cong: option.case_cong sum.case_cong if_cong)

text \<open>
  Claim C6. Two calls on the same state of the data service, with the same distribution,
  aggregation function and method, the same libraries and the same bootstrap seeds
  (\<open>random_seeds\<close>, and the draws \<open>rng_choice\<close> they determine) return the same value,
  confidence band included, whatever the order in which the process pool completes the
  iterations in each call, and whether the pool is used or the call falls back to the
  sequential loop: the band is computed from percentiles of the surviving iterations,
  which do not depend on their order. The hypothesis on the two orders is that the pool
  delivers each iteration once.
\<close>

theorem fixed_seeds_give_identical_output:
  assumes "completion_ok E c1" and "completion_ok E c2"
  shows "compute_frequency_curve (E\<lparr>pool_completion := c1\<rparr>) ds distribution_name agg_func method =
         compute_frequency_curve (E\<lparr>pool_completion := c2\<rparr>) ds distribution_name agg_func method"
  unfolding compute_sequential [OF assms(1)] compute_sequential [OF assms(2)] ..


subsection \<open>A run with a band\<close>

lemma linear_zone_value:
  assumes "360 \<le> i" and "i \<le> (599::nat)"
  shows "clip (inverse_mixed_scale (real i / 599)) min_p max_p =
           25 + (real i / 599 - 6 / 10) / (4 / 10) * (7499 / 100)"
proof -
  define x where "x = real i / 599"
  have x: "6 / 10 \<le> x" "x \<le> 1"
    using assms by (simp_all add: x_def field_simps)
  have c: "clip x 0 1 = x" using x by (simp add: clip_def)
  define t where "t = (x - 6 / 10) / (4 / 10)"
  have t: "0 \<le> t" "t \<le> 1" using x by (simp_all add: t_def field_simps)
  have v: "inverse_mixed_scale x = 25 + t * (7499 / 100)"
    using x unfolding inverse_mixed_scale_def Let_def c
    by (simp add: transition_start_pos_def transition_end_pos_def transition_end_def max_p_def
        t_def)
  have "0 \<le> t * (7499 / 100)" using t by simp
  moreover have "t * (7499 / 100) \<le> 1 * (7499 / 100)"
    using t by (intro mult_right_mono) auto
  ultimately have "clip (25 + t * (7499 / 100)) min_p max_p = 25 + t * (7499 / 100)"
    by (simp add: clip_def min_p_def max_p_def)
  then show ?thesis unfolding v [unfolded x_def] t_def x_def .
qed

lemma positions_near:
  assumes "360 \<le> i" and "i \<le> (599::nat)"
  shows "\<exists>k \<in> set p_percent_positions.
           k \<le> 25 + (real i / 599 - 6 / 10) / (4 / 10) * (7499 / 100) \<and>
           25 + (real i / 599 - 6 / 10) / (4 / 10) * (7499 / 100) - 6 / 10000 \<le> k"
proof -
  define S where "S = sort (map (\<lambda>p. clip p min_p max_p)
                        (map inverse_mixed_scale (linspace01 num_points)))"
  define y where "y = 25 + (real i / 599 - 6 / 10) / (4 / 10) * (7499 / 100)"
  have len: "length S = 600"
    by (simp add: S_def linspace01_def num_points_def)
  have "real i / 599 = (\<lambda>i. real i / real (600 - 1)) i" by simp
  moreover have "i \<in> set [0..<600]" using assms(2) by simp
  ultimately have "real i / 599 \<in> set (linspace01 num_points)"
    unfolding linspace01_def num_points_def set_map by (rule image_eqI)
  then have "clip (inverse_mixed_scale (real i / 599)) min_p max_p \<in> set S"
    unfolding S_def by simp
  then have "y \<in> set S"
    unfolding linear_zone_value [OF assms] y_def .
  then obtain j where j: "j < length S" "S ! j = y"
    by (auto simp: in_set_conv_nth)
  have "sorted S" by (simp add: S_def)
  from remove_close_near [OF this j(1)] obtain k where
    k: "k \<in> set (remove_close S)" "k \<le> y" "y - k \<le> real j / 10 ^ 6"
    unfolding j(2) by auto
  have "real j / 10 ^ 6 \<le> 600 / 10 ^ 6"
    using j(1) len by (intro divide_right_mono) auto
  then have "y - 6 / 10000 \<le> k" using k(3) by simp
  moreover have "k \<in> set p_percent_positions"
    using k(1) by (simp add: p_percent_positions_def Let_def S_def)
  ultimately show ?thesis using k(2) unfolding y_def by blast
qed

lemma positions_length: "5 \<le> length p_percent_positions"
proof -
  from positions_near [of 400] obtain k1 where
    k1: "k1 \<in> set p_percent_positions" "k1 \<le> 38" by (auto simp: field_simps)
  from positions_near [of 450] obtain k2 where
    k2: "k2 \<in> set p_percent_positions" "k2 \<le> 54" "53 \<le> k2" by (auto simp: field_simps)
  from positions_near [of 500] obtain k3 where
    k3: "k3 \<in> set p_percent_positions" "k3 \<le> 70" "68 \<le> k3" by (auto simp: field_simps)
  from positions_near [of 550] obtain k4 where
    k4: "k4 \<in> set p_percent_positions" "k4 \<le> 85" "84 \<le> k4" by (auto simp: field_simps)
  from positions_near [of 599] obtain k5 where
    k5: "k5 \<in> set p_percent_positions" "99 \<le> k5" by (auto simp: field_simps)
  have d: "distinct [k1, k2, k3, k4, k5]"
    using k1(2) k2(2,3) k3(2,3) k4(2,3) k5(2) by simp
  have "set [k1, k2, k3, k4, k5] \<subseteq> set p_percent_positions"
    using k1(1) k2(1) k3(1) k4(1) k5(1) by simp
  then have "card (set [k1, k2, k3, k4, k5]) \<le> card (set p_percent_positions)"
    by (intro card_mono) auto
  also have "\<dots> \<le> length p_percent_positions" by (rule card_length)
  finally show ?thesis using distinct_card [OF d] by simp
qed

lemma ci_positions_all: "ci_positions p_percent_positions = p_percent_positions"
  unfolding ci_positions_def Let_def
  using p_percent_positions_range by (intro filter_True) (auto simp: min_p_def max_p_def)

text \<open>Lists of constant pairs.\<close>

lemma zip_replicate_right: "length xs = n \<Longrightarrow> zip xs (replicate n y) = map (\<lambda>x. (x, y)) xs"
  by (induction xs arbitrary: n) auto

lemma select_mask_all: "length xs = n \<Longrightarrow> select_mask xs (replicate n True) = xs"
  unfolding select_mask_def by (simp add: zip_replicate_right comp_def)

lemma concat_replicate_single: "concat (replicate n [x]) = replicate n x"
  by (induction n) auto

lemma map_if_upt:
  "map (\<lambda>s. if s < m then a else b) [0..<m + n] = replicate m a @ replicate n b"
proof -
  have 1: "map (\<lambda>s. if s < m then a else b) [0..<m] = map (\<lambda>s. a) [0..<m]"
    by (rule map_cong) auto
  have 2: "map (\<lambda>s. if s < m then a else b) [m..<m + n] = map (\<lambda>s. b) [m..<m + n]"
    by (rule map_cong) auto
  have "[0..<m + n] = [0..<m] @ [m..<m + n]"
    by (rule upt_add_eq_append) simp
  then show ?thesis
    by (simp only: map_append 1 2 map_replicate_const length_upt) simp
qed

lemma concat_all_Some:
  "concat (map ((\<lambda>r. case r of Some a \<Rightarrow> [a] | None \<Rightarrow> []) \<circ> (\<lambda>s. Some (f s))) xs) = map f xs"
  by (induction xs) auto

text \<open>The iterations of the run: the quantiles of seed \<open>s\<close> are constantly 2 or 3.\<close>

lemma band_worker:
  assumes "length pv = m"
  shows "bootstrap_iteration_worker band_env seed (replicate 10 2 @ replicate 10 3) 20
           ''lognorm'' pv (replicate m (Fin 2)) (Fin 30000) =
         Some (replicate m (Some (if seed < 500 then 2 else 3)))"
proof -
  define c :: real where "c = (if seed < 500 then 2 else 3)"
  have c: "c = 2 \<or> c = 3" by (simp add: c_def)
  have s: "rng_choice band_env seed (replicate 10 2 @ replicate 10 3) 20 = replicate 20 c"
    by (simp add: band_env_def c_def)
  have f: "scipy_fit band_env lognorm (replicate 20 c) = Some [NpFloat (Fin c), NpFloat (Fin 1)]"
    by (simp add: band_env_def)
  have q: "map (\<lambda>p. scipy_ppf band_env lognorm (1 - p) [Fin c, Fin 1]) pv = replicate m (Fin c)"
    using assms by (simp add: band_env_def map_replicate_const)
  have k: "keep_valid (Fin 30000) (Fin c) = Some c"
    using c by (auto simp: keep_valid_def fgt_def)
  have o: "\<not> is_outlier ''lognorm'' (Some c) (Fin 2)"
    using c by (auto simp: is_outlier_def Let_def fgt_def fl_Fin)
  have "bootstrap_iteration_worker band_env seed (replicate 10 2 @ replicate 10 3) 20
           ''lognorm'' pv (replicate m (Fin 2)) (Fin 30000) = Some (replicate m (Some c))"
    by (simp add: bootstrap_iteration_worker_def Let_def s f q dist_map_def k o)
  then show ?thesis by (simp add: c_def)
qed

lemma band_bootstrap_rows:
  "bootstrap_quantiles_of band_env lognorm ''lognorm'' (replicate 10 2 @ replicate 10 3)
     [NpFloat (Fin 2), NpFloat (Fin 1)] P (Fin 30000) =
   replicate 500 (replicate (length P) (Some 2)) @ replicate 500 (replicate (length P) (Some 3))"
proof -
  let ?pv = "map (\<lambda>p. p / 100) P"
  have r: "map (\<lambda>p. scipy_ppf band_env lognorm (1 - p)
                   (map num_of [NpFloat (Fin 2), NpFloat (Fin 1)])) ?pv =
           replicate (length ?pv) (Fin 2)"
    by (simp add: band_env_def map_replicate_const comp_def)
  have w: "(\<lambda>seed. bootstrap_iteration_worker band_env seed (replicate 10 2 @ replicate 10 3)
                     (length (replicate 10 (2::real) @ replicate 10 3)) ''lognorm'' ?pv
                     (replicate (length ?pv) (Fin 2)) (Fin 30000)) =
           (\<lambda>seed. Some (if seed < 500 then replicate (length P) (Some 2)
                           else replicate (length P) (Some 3)))"
    by (rule ext) (simp add: band_worker [where pv = "map (\<lambda>p. p / 100) P" and m = "length P"])
  have e: "(1000::nat) = 500 + 500" by simp
  have "run_bootstrap band_env
          (\<lambda>seed. Some (if seed < 500 then replicate (length P) (Some (2::real))
                          else replicate (length P) (Some 3))) 1000 =
        map (\<lambda>seed. if seed < 500 then replicate (length P) (Some 2)
                      else replicate (length P) (Some 3)) [0..<1000]"
    unfolding run_bootstrap_def Let_def
    by (simp add: band_env_def concat_all_Some del: upt_rec_numeral)
  also have "\<dots> = replicate 500 (replicate (length P) (Some 2)) @
                   replicate 500 (replicate (length P) (Some 3))"
    unfolding e by (rule map_if_upt)
  finally show ?thesis
    unfolding bootstrap_quantiles_of_def Let_def r w
    by (simp add: n_bootstrap_of_def)
qed

lemma sorted_two_blocks: "a \<le> b \<Longrightarrow> sort (replicate m a @ replicate n (b::real)) = replicate m a @ replicate n b"
  by (rule sort_key_id_if_sorted) (simp add: sorted_append)

lemma band_percentiles:
  "percentile_linear (replicate 500 2 @ replicate 500 3) (25 / 10) = Fin 2"
  "percentile_linear (replicate 500 2 @ replicate 500 3) (975 / 10) = Fin 3"
proof -
  have s: "sort (replicate 500 2 @ replicate 500 (3::real)) = replicate 500 2 @ replicate 500 3"
    by (rule sorted_two_blocks) simp
  have f1: "nat \<lfloor>(999::real) * (25 / 10) / 100\<rfloor> = 24" by simp
  have f2: "nat \<lfloor>(999::real) * (975 / 10) / 100\<rfloor> = 974" by simp
  show "percentile_linear (replicate 500 2 @ replicate 500 3) (25 / 10) = Fin 2"
    unfolding percentile_linear_def Let_def s
    by (simp add: nth_append)
  show "percentile_linear (replicate 500 2 @ replicate 500 3) (975 / 10) = Fin 3"
    unfolding percentile_linear_def Let_def s
    by (simp add: nth_append)
qed

lemma band_column:
  assumes "j < m"
  shows "column (replicate 500 (replicate m (Some 2)) @ replicate 500 (replicate m (Some 3))) j =
           replicate 500 (2::real) @ replicate 500 3"
  using assms unfolding column_def by (simp add: concat_replicate_single)

lemma band_nanpercentile:
  "nanpercentile (replicate 500 (replicate m (Some 2)) @ replicate 500 (replicate m (Some 3)))
     m (25 / 10) = replicate m (Fin 2)"
  "nanpercentile (replicate 500 (replicate m (Some 2)) @ replicate 500 (replicate m (Some 3)))
     m (975 / 10) = replicate m (Fin 3)"
proof -
  let ?rows = "replicate 500 (replicate m (Some (2::real))) @ replicate 500 (replicate m (Some 3))"
  have 1: "percentile_linear (column ?rows j) (25 / 10) = Fin 2" if "j < m" for j
    unfolding band_column [OF that] by (rule band_percentiles(1))
  have 2: "percentile_linear (column ?rows j) (975 / 10) = Fin 3" if "j < m" for j
    unfolding band_column [OF that] by (rule band_percentiles(2))
  have "map (\<lambda>j. percentile_linear (column ?rows j) (25 / 10)) [0..<m] = map (\<lambda>j. Fin 2) [0..<m]"
    using 1 by (intro map_cong) auto
  then show "nanpercentile ?rows m (25 / 10) = replicate m (Fin 2)"
    unfolding nanpercentile_def by (simp add: map_replicate_const)
  have "map (\<lambda>j. percentile_linear (column ?rows j) (975 / 10)) [0..<m] = map (\<lambda>j. Fin 3) [0..<m]"
    using 2 by (intro map_cong) auto
  then show "nanpercentile ?rows m (975 / 10) = replicate m (Fin 3)"
    unfolding nanpercentile_def by (simp add: map_replicate_const)
qed

text \<open>The plausibility filter at a position whose bounds are 2 and 3 around the quantile 2.\<close>

lemma zone_factor_cases:
  "zone_factor lo hi a b c p = a \<or> zone_factor lo hi a b c p = b \<or> zone_factor lo hi a b c p = c"
  by (auto simp: zone_factor_def is_far_extrapolation_def is_near_extrapolation_def
      is_interpolation_def)

lemma plausible_2_3: "plausible ''lognorm'' lo hi p (Fin 2) (Fin 2) (Fin 3) True"
  using zone_factor_cases [of lo hi "5 / 2" 6 8 p] zone_factor_cases [of lo hi 4 8 10 p]
  by (auto simp: plausible_def Let_def fl_Fin fsub_def fgt_def)

lemma band_bounds:
  "corrected_bounds ''lognorm'' (replicate m (Fin 2)) (replicate m (Fin 2)) (replicate m (Fin 3)) =
     replicate m (Fin 2, Fin 3)"
  by (simp add: corrected_bounds_def Let_def swap_inverted_def fgt_def)

lemma band_mask:
  assumes "length P = m"
  shows "band_valid_mask ''lognorm'' lo hi P (replicate m (Fin 2)) (replicate m (Fin 2, Fin 3)) =
           replicate m True"
proof -
  have "map (\<lambda>(p, theo, (l, u), valid). plausible ''lognorm'' lo hi p theo l u valid)
          (map (\<lambda>p. (p, Fin 2, (Fin 2, Fin 3), True)) P) = map (\<lambda>p. True) P"
    by (simp add: plausible_2_3)
  then show ?thesis
    using assms unfolding band_valid_mask_def Let_def
    by (simp add: zip_replicate_right map_replicate_const)
qed

lemma band_of_percentiles_run:
  assumes "length P = m"
  shows "band_of_percentiles band_env ''lognorm'' lo hi P (replicate m (Fin 2))
           (replicate m (Fin 2)) (replicate m (Fin 3)) =
         Some (assemble_band band_env lo hi P (replicate m (Fin 2, Fin 3)) (replicate m True))"
  unfolding band_of_percentiles_def Let_def band_bounds band_mask [OF assms]
  using assms by simp

text \<open>
  The assembly of a band whose bounds are the same pair at every position, all of them
  valid: the points of the two sequences are that pair, at some of the positions.
\<close>

lemma dict_of_graph:
  "p \<in> set ps \<Longrightarrow> dict_of (map (\<lambda>p. (p, a)) ps) p = Some a"
proof -
  assume p: "p \<in> set ps"
  then have "p \<in> fst ` set (map (\<lambda>p. (p, a)) ps)" by force
  from dict_of_the [OF this] dict_of_defined [OF this] show ?thesis by auto
qed

lemma points_at_graph:
  assumes "set qs \<subseteq> set ps"
  shows "points_at (map (\<lambda>p. (p, a)) ps) (map (\<lambda>p. (p, b)) ps) qs =
           (map (\<lambda>p. (p, a)) qs, map (\<lambda>p. (p, b)) qs)"
proof -
  have "map (\<lambda>p. (p, the (dict_of (map (\<lambda>p. (p, c)) ps) p))) qs = map (\<lambda>p. (p, c)) qs" for c
    using assms by (intro map_cong) (auto simp: dict_of_graph)
  then show ?thesis by (simp add: points_at_def)
qed

lemma common_keys_graph:
  assumes "sorted_wrt (<) ps"
  shows "common_keys (map (\<lambda>p. (p, a)) ps) (map (\<lambda>p. (p, b)) ps) = ps"
proof -
  have "fst ` set (map (\<lambda>p. (p, c)) ps) = set ps" for c :: npfloat by force
  then have "common_keys (map (\<lambda>p. (p, a)) ps) (map (\<lambda>p. (p, b)) ps) =
             sorted_list_of_set (set ps)"
    unfolding common_keys_def by simp
  also have "\<dots> = ps"
    using assms by (intro sorted_list_of_set.idem_if_sorted_distinct)
      (simp_all add: strict_sorted_iff)
  finally show ?thesis .
qed

lemma sort_graph:
  "sorted_wrt (<) (ps :: real list) \<Longrightarrow> sort_key fst (map (\<lambda>p. (p, a)) ps) = map (\<lambda>p. (p, a)) ps"
  by (rule sort_key_id_if_sorted) (simp add: comp_def strict_sorted_iff)

lemma temp_points_graph:
  assumes "sorted_wrt (<) ps" and "ordered_pair a b"
  shows "temp_points (map (\<lambda>p. (p, a)) ps) (map (\<lambda>p. (p, b)) ps) =
           (map (\<lambda>p. (p, a)) ps, map (\<lambda>p. (p, b)) ps)"
proof -
  have "filter (\<lambda>p. let lower_q = the (dict_of (map (\<lambda>p. (p, a)) ps) p);
                         upper_q = the (dict_of (map (\<lambda>p. (p, b)) ps) p)
                     in flt lower_q upper_q \<and> fge lower_q (Fin 0) \<and>
                        isfinite lower_q \<and> isfinite upper_q) ps = ps"
    using assms(2) by (intro filter_True) (simp add: dict_of_graph ordered_pair_def)
  then show ?thesis
    unfolding temp_points_def Let_def common_keys_graph [OF assms(1)]
    by (simp add: points_at_graph)
qed

lemma fill_gaps_graph:
  assumes "scipy_interp1d E = (\<lambda>xs ys. None)" and "sorted_wrt (<) qs"
  shows "fill_gaps E (map (\<lambda>p. (p, a)) qs, map (\<lambda>p. (p, b)) qs) =
           (map (\<lambda>p. (p, a)) qs, map (\<lambda>p. (p, b)) qs)"
proof -
  have i: "interpolated_band E L U ps = None" for L U ps
    by (simp add: interpolated_band_def Let_def assms(1))
  show ?thesis
    unfolding fill_gaps_def Let_def fst_conv snd_conv common_keys_graph [OF assms(2)] i
    by (simp add: points_at_graph)
qed

lemma ensure_ends_props:
  assumes "0 < k"
  shows "ensure_ends k sel \<noteq> []" and "sorted_wrt (<) (ensure_ends k sel)"
proof -
  define s1 where "s1 = (if 0 \<notin> set sel then 0 # sel else sel)"
  define s2 where "s2 = (if k - 1 \<notin> set s1 then s1 @ [k - 1] else s1)"
  have e: "ensure_ends k sel = sorted_list_of_set (set s2)"
    using assms by (simp add: ensure_ends_def Let_def s1_def s2_def)
  have "0 \<in> set s1" by (simp add: s1_def)
  then have "0 \<in> set s2" by (simp add: s2_def)
  then have "set (sorted_list_of_set (set s2)) \<noteq> {}" by auto
  then show "ensure_ends k sel \<noteq> []" unfolding e by auto
  show "sorted_wrt (<) (ensure_ends k sel)"
    unfolding e strict_sorted_iff by simp
qed

lemma nth_strict_mono:
  assumes "sorted_wrt (<) (ps :: real list)" and "sorted_wrt (<) (sel :: nat list)"
    and "set sel \<subseteq> {0..<length ps}"
  shows "sorted_wrt (<) (map (\<lambda>i. ps ! i) sel)"
  unfolding sorted_wrt_iff_nth_less
proof (intro allI impI)
  fix i j
  assume ij: "i < j" and j: "j < length (map (\<lambda>i. ps ! i) sel)"
  have j': "j < length sel" using j by simp
  have i': "i < length sel" using ij j' by simp
  have 1: "sel ! i < sel ! j"
    using assms(2) ij j' by (simp add: sorted_wrt_iff_nth_less)
  have "sel ! j \<in> set sel" using j' by (rule nth_mem)
  then have 2: "sel ! j < length ps" using assms(3) by auto
  have "ps ! (sel ! i) < ps ! (sel ! j)"
    using assms(1) 1 2 by (simp add: sorted_wrt_iff_nth_less)
  then show "map (\<lambda>i. ps ! i) sel ! i < map (\<lambda>i. ps ! i) sel ! j"
    using i' j' by simp
qed

lemma adaptive_sample_graph:
  assumes "sorted_wrt (<) ps" and "ps \<noteq> []"
  shows "\<exists>qs. qs \<noteq> [] \<and> sorted_wrt (<) qs \<and> set qs \<subseteq> set ps \<and>
           adaptive_sample lo hi (map (\<lambda>p. (p, a)) ps, map (\<lambda>p. (p, b)) ps) =
             (map (\<lambda>p. (p, a)) qs, map (\<lambda>p. (p, b)) qs)"
proof (cases "length ps > 300")
  case False
  then show ?thesis
    using assms by (intro exI [of _ ps]) (simp add: adaptive_sample_def Let_def)
next
  case True
  define sel where "sel = selected_indices lo hi ps"
  have k: "0 < length ps" using assms(2) by simp
  have sub: "set sel \<subseteq> {0..<length ps}"
    unfolding sel_def by (rule set_selected_indices)
  have sel: "sel \<noteq> []" "sorted_wrt (<) sel"
    unfolding sel_def selected_indices_def Let_def
    by (rule ensure_ends_props [OF k])+
  define qs where "qs = map (\<lambda>i. ps ! i) sel"
  have 1: "qs \<noteq> []" using sel(1) by (simp add: qs_def)
  have 2: "sorted_wrt (<) qs"
    unfolding qs_def using assms(1) sel(2) sub by (rule nth_strict_mono)
  have 3: "set qs \<subseteq> set ps" using sub by (auto simp: qs_def)
  have m: "map (\<lambda>i. map (\<lambda>p. (p, c)) ps ! i) sel = map (\<lambda>p. (p, c)) qs" for c :: npfloat
    unfolding qs_def map_map comp_def using sub by (intro map_cong) auto
  have "adaptive_sample lo hi (map (\<lambda>p. (p, a)) ps, map (\<lambda>p. (p, b)) ps) =
          (map (\<lambda>p. (p, a)) qs, map (\<lambda>p. (p, b)) qs)"
    using True unfolding adaptive_sample_def Let_def
    by (simp add: comp_def sel_def [symmetric] m)
  then show ?thesis using 1 2 3 by blast
qed

lemma assemble_band_constant:
  assumes "scipy_interp1d E = (\<lambda>xs ys. None)" and "sorted_wrt (<) ps" and "ps \<noteq> []"
    and "ordered_pair a b" and "length ps = m"
  shows "\<exists>qs. qs \<noteq> [] \<and> set qs \<subseteq> set ps \<and>
           assemble_band E lo hi ps (replicate m (a, b)) (replicate m True) =
             \<lparr>lower = map (\<lambda>p. Point (PyFloat (Fin p)) (PyFloat a)) qs,
              upper = map (\<lambda>p. Point (PyFloat (Fin p)) (PyFloat b)) qs\<rparr>"
proof -
  have l: "select_mask (zip ps (map fst (replicate m (a, b)))) (replicate m True) =
             map (\<lambda>p. (p, a)) ps"
    using assms(5) by (simp add: select_mask_all zip_replicate_right)
  have u: "select_mask (zip ps (map snd (replicate m (a, b)))) (replicate m True) =
             map (\<lambda>p. (p, b)) ps"
    using assms(5) by (simp add: select_mask_all zip_replicate_right)
  from adaptive_sample_graph [OF assms(2,3), of lo hi a b] obtain qs where
    qs: "qs \<noteq> []" "sorted_wrt (<) qs" "set qs \<subseteq> set ps"
    and s: "adaptive_sample lo hi (map (\<lambda>p. (p, a)) ps, map (\<lambda>p. (p, b)) ps) =
             (map (\<lambda>p. (p, a)) qs, map (\<lambda>p. (p, b)) qs)"
    by (elim exE conjE)
  have "assemble_band E lo hi ps (replicate m (a, b)) (replicate m True) =
          \<lparr>lower = map to_point (map (\<lambda>p. (p, a)) qs),
           upper = map to_point (map (\<lambda>p. (p, b)) qs)\<rparr>"
    unfolding assemble_band_def Let_def l u sort_graph [OF assms(2)]
      temp_points_graph [OF assms(2,4)] s fst_conv snd_conv sort_graph [OF qs(2)]
      fill_gaps_graph [OF assms(1) qs(2)] ..
  then have "assemble_band E lo hi ps (replicate m (a, b)) (replicate m True) =
             \<lparr>lower = map (\<lambda>p. Point (PyFloat (Fin p)) (PyFloat a)) qs,
              upper = map (\<lambda>p. Point (PyFloat (Fin p)) (PyFloat b)) qs\<rparr>"
    by (simp add: to_point_def comp_def)
  then show ?thesis using qs(1,3) by blast
qed

text \<open>
  The run: twenty years, ten values 2 and ten values 3, the lognormal family fitted by
  likelihood. The fitted quantile is 2 at every position, the iterations give 2 (the seeds
  below 500) or 3, so the percentiles are 2 and 3 and every position is valid.
\<close>

lemma band_run_fit:
  "fit_parameters band_env lognorm ''lognorm'' ''mle'' (replicate 10 2 @ replicate 10 3) =
     Some [NpFloat (Fin 2), NpFloat (Fin 1)]"
  by (simp add: fit_parameters_def use_mom_def band_env_def validate_params_def)

lemma band_run_quantiles:
  "theoretical_quantiles band_env lognorm ''lognorm'' [NpFloat (Fin 2), NpFloat (Fin 1)] mu sd P =
     Some (P, replicate (length P) (Fin 2))"
proof -
  have q: "ppf_curve band_env lognorm [NpFloat (Fin 2), NpFloat (Fin 1)] P =
             replicate (length P) (Fin 2)"
    by (simp add: ppf_curve_def band_env_def map_replicate_const)
  show ?thesis
    unfolding theoretical_quantiles_def Let_def q
    by (simp add: fgt_def list_all_length)
qed

lemma band_run_ceiling:
  "py_min (fmul (Fin (Max (set (replicate 10 2 @ replicate 10 (3::real))))) (Fin 10000))
     (Fin (10 ^ 10)) = Fin 30000"
proof -
  have "set (replicate 10 2 @ replicate 10 (3::real)) = {2, 3}" by auto
  then have "Max (set (replicate 10 2 @ replicate 10 (3::real))) = 3" by simp
  then show ?thesis by (simp add: py_min_def fl_Fin)
qed

lemma band_run_intervals:
  "\<exists>qs. qs \<noteq> [] \<and> set qs \<subseteq> set p_percent_positions \<and>
     confidence_intervals_of band_env lognorm ''lognorm'' (replicate 10 2 @ replicate 10 3)
       [NpFloat (Fin 2), NpFloat (Fin 1)] p_percent_positions (Fin 30000) =
     Some \<lparr>lower = map (\<lambda>p. Point (PyFloat (Fin p)) (PyFloat (Fin 2))) qs,
           upper = map (\<lambda>p. Point (PyFloat (Fin p)) (PyFloat (Fin 3))) qs\<rparr>"
proof -
  let ?P = p_percent_positions
  let ?xs = "replicate 10 2 @ replicate 10 (3::real)"
  let ?m = "length ?P"
  let ?lo = "Min (set (Weibull ?xs))" and ?hi = "Max (set (Weibull ?xs))"
  have a: "allow_ci (length ?xs) ''lognorm''"
    by (simp add: allow_ci_def fast_distributions_def)
  have n: "\<not> length (map (\<lambda>p. p / 100) ?P) < 5"
    using positions_length by simp
  have t: "map (\<lambda>p. scipy_ppf band_env lognorm (1 - p)
                   (map num_of [NpFloat (Fin 2), NpFloat (Fin 1)])) (map (\<lambda>p. p / 100) ?P) =
           replicate ?m (Fin 2)"
    by (simp add: band_env_def map_replicate_const comp_def)
  have l: "length (replicate 500 (replicate ?m (Some (2::real))) @
                   replicate 500 (replicate ?m (Some 3))) \<noteq> 0"
    by simp
  have c: "confidence_intervals_of band_env lognorm ''lognorm'' ?xs
             [NpFloat (Fin 2), NpFloat (Fin 1)] ?P (Fin 30000) =
           Some (assemble_band band_env ?lo ?hi ?P (replicate ?m (Fin 2, Fin 3))
                   (replicate ?m True))"
    unfolding confidence_intervals_of_def Let_def ci_positions_all band_bootstrap_rows t
      length_map band_nanpercentile band_of_percentiles_run [OF refl]
    using a n l by (simp only: if_True if_False length_map)
  have ne: "?P \<noteq> []" using positions_length by auto
  have i: "scipy_interp1d band_env = (\<lambda>xs ys. None)" by (simp add: band_env_def)
  have o: "ordered_pair (Fin 2) (Fin 3)" by (simp add: ordered_pair_def fge_def)
  from assemble_band_constant [OF i p_percent_positions_strict ne o refl, of ?lo ?hi]
  show ?thesis unfolding c by (elim exE conjE, intro exI conjI) simp_all
qed

lemma band_run:
  "\<exists>qs r. qs \<noteq> [] \<and> set qs \<subseteq> set p_percent_positions \<and>
     compute_frequency_curve band_env
       (example_service (map (\<lambda>i. 2000 + int i) [0..<20]) (replicate 10 2 @ replicate 10 3))
       ''lognorm'' ''max'' ''mle'' = Inr (Curve r) \<and>
     confidence_intervals r =
       Some \<lparr>lower = map (\<lambda>p. Point (PyFloat (Fin p)) (PyFloat (Fin 2))) qs,
             upper = map (\<lambda>p. Point (PyFloat (Fin p)) (PyFloat (Fin 3))) qs\<rparr>"
proof -
  let ?ys = "map (\<lambda>i. 2000 + int i) [0..<20]"
  let ?xs = "replicate 10 2 @ replicate 10 (3::real)"
  let ?ps = "[NpFloat (Fin 2), NpFloat (Fin 1)]"
  let ?db = "\<lparr>name = ''Lognormal'', dist_impl = lognorm\<rparr>"
  let ?PQ = "(p_percent_positions, replicate (length p_percent_positions) (Fin 2))"
  let ?r = "frequency_curve_of band_env lognorm ''lognorm'' ?xs ?ps ?PQ
              [(''shape'', PyNone), (''loc'', NpFloat (Fin 2)), (''scale'', NpFloat (Fin 1))]"
  have d: "distinct ?ys" unfolding distinct_map by (simp add: inj_on_def del: upt_rec_numeral)
  have y: "?ys \<noteq> []" by simp
  have x: "3 \<le> length ?xs" "\<forall>x \<in> set ?xs. 0 < x" by auto
  have "compute_frequency_curve band_env (example_service ?ys ?xs) ''lognorm'' ''max'' ''mle'' =
          after_fit band_env (dist_impl ?db) ''lognorm'' ?xs ?ps"
    by (rule compute_example [OF d x y, of "''max''" "''lognorm''" ?db "''mle''" band_env ?ps])
       (simp_all add: distributions_def valid_methods_def band_run_fit)
  also have "\<dots> = Inr (Curve ?r)"
    using after_fit_Some [OF band_run_quantiles extract_params_two] by simp
  finally have c: "compute_frequency_curve band_env (example_service ?ys ?xs)
                     ''lognorm'' ''max'' ''mle'' = Inr (Curve ?r)" .
  have ci: "confidence_intervals ?r =
              confidence_intervals_of band_env lognorm ''lognorm'' ?xs ?ps p_percent_positions
                (Fin 30000)"
    unfolding ci_fields band_run_ceiling fst_conv ..
  from band_run_intervals obtain qs where
    qs: "qs \<noteq> []" "set qs \<subseteq> set p_percent_positions"
      "confidence_intervals_of band_env lognorm ''lognorm'' ?xs ?ps p_percent_positions
         (Fin 30000) =
       Some \<lparr>lower = map (\<lambda>p. Point (PyFloat (Fin p)) (PyFloat (Fin 2))) qs,
             upper = map (\<lambda>p. Point (PyFloat (Fin p)) (PyFloat (Fin 3))) qs\<rparr>"
    by (elim exE conjE)
  show ?thesis
    using qs(1,2) c ci [unfolded qs(3)] by (intro exI conjI)
qed

text \<open>
  The band of the run has points, the first points of its two sequences are at the same
  position, and their values 2 and 3 are in the order stated by Claim C3.
\<close>

theorem confidence_band_ordered_witness:
  "\<exists>r band.
     compute_frequency_curve band_env
       (example_service (map (\<lambda>i. 2000 + int i) [0..<20]) (replicate 10 2 @ replicate 10 3))
       ''lognorm'' ''max'' ''mle'' = Inr (Curve r) \<and>
     confidence_intervals r = Some band \<and>
     lower band \<noteq> [] \<and> upper band \<noteq> [] \<and>
     P_percent (hd (lower band)) = P_percent (hd (upper band)) \<and>
     Q (hd (lower band)) = PyFloat (Fin 2) \<and> Q (hd (upper band)) = PyFloat (Fin 3) \<and>
     fle (num_of (Q (hd (lower band)))) (num_of (Q (hd (upper band)))) \<and>
     flt (num_of (Q (hd (lower band)))) (num_of (Q (hd (upper band))))"
proof -
  let ?ds = "example_service (map (\<lambda>i. 2000 + int i) [0..<20]) (replicate 10 2 @ replicate 10 3)"
  from band_run obtain qs r where qs: "qs \<noteq> []"
    and c: "compute_frequency_curve band_env ?ds ''lognorm'' ''max'' ''mle'' = Inr (Curve r)"
    and ci: "confidence_intervals r =
       Some \<lparr>lower = map (\<lambda>p. Point (PyFloat (Fin p)) (PyFloat (Fin 2))) qs,
             upper = map (\<lambda>p. Point (PyFloat (Fin p)) (PyFloat (Fin 3))) qs\<rparr>"
    by (elim exE conjE)
  let ?band = "\<lparr>lower = map (\<lambda>p. Point (PyFloat (Fin p)) (PyFloat (Fin 2))) qs,
                 upper = map (\<lambda>p. Point (PyFloat (Fin p)) (PyFloat (Fin 3))) qs\<rparr>"
  have l: "lower ?band \<noteq> []" and u: "upper ?band \<noteq> []" using qs by simp_all
  have p: "P_percent (hd (lower ?band)) = P_percent (hd (upper ?band))"
    using qs by (simp add: hd_map)
  have q: "Q (hd (lower ?band)) = PyFloat (Fin 2)" "Q (hd (upper ?band)) = PyFloat (Fin 3)"
    using qs by (simp_all add: hd_map)
  have hl: "hd (lower ?band) \<in> set (lower ?band)" using l by (rule hd_in_set)
  have hu: "hd (upper ?band) \<in> set (upper ?band)" using u by (rule hd_in_set)
  note t = confidence_band_ordered [OF c ci, THEN conjunct1, rule_format, OF hl hu p]
  have o1: "fle (num_of (Q (hd (lower ?band)))) (num_of (Q (hd (upper ?band))))"
    using t by (rule conjunct1)
  have o2: "flt (num_of (Q (hd (lower ?band)))) (num_of (Q (hd (upper ?band))))"
    using t by (rule conjunct1 [OF conjunct2])
  show ?thesis
    using c ci l u p q o1 o2 by (intro exI conjI)
qed

text \<open>
  The same run with the pool delivering the iterations in the order of the seeds and in
  the reverse order: the two calls return the same value, and it has a band.
\<close>

theorem fixed_seeds_give_identical_output_witness:
  "compute_frequency_curve (band_env\<lparr>pool_completion := (\<lambda>k. Some [0..<k])\<rparr>)
     (example_service (map (\<lambda>i. 2000 + int i) [0..<20]) (replicate 10 2 @ replicate 10 3))
     ''lognorm'' ''max'' ''mle'' =
   compute_frequency_curve (band_env\<lparr>pool_completion := (\<lambda>k. Some (rev [0..<k]))\<rparr>)
     (example_service (map (\<lambda>i. 2000 + int i) [0..<20]) (replicate 10 2 @ replicate 10 3))
     ''lognorm'' ''max'' ''mle'' \<and>
   (\<exists>r band.
      compute_frequency_curve (band_env\<lparr>pool_completion := (\<lambda>k. Some (rev [0..<k]))\<rparr>)
        (example_service (map (\<lambda>i. 2000 + int i) [0..<20]) (replicate 10 2 @ replicate 10 3))
        ''lognorm'' ''max'' ''mle'' = Inr (Curve r) \<and>
      confidence_intervals r = Some band \<and> lower band \<noteq> [] \<and> upper band \<noteq> [])"
proof -
  let ?ds = "example_service (map (\<lambda>i. 2000 + int i) [0..<20]) (replicate 10 2 @ replicate 10 3)"
  let ?c1 = "\<lambda>k::nat. Some [0..<k]" and ?c2 = "\<lambda>k::nat. Some (rev [0..<k])"
  let ?c0 = "\<lambda>k::nat. None :: nat list option"
  have s: "random_seeds band_env = (\<lambda>k. [0..<k])" by (simp add: band_env_def)
  have ok: "completion_ok band_env ?c1" "completion_ok band_env ?c2" "completion_ok band_env ?c0"
    unfolding completion_ok_def s by simp_all
  have e: "band_env\<lparr>pool_completion := ?c0\<rparr> = band_env" by (simp add: band_env_def)
  have 1: "compute_frequency_curve (band_env\<lparr>pool_completion := ?c1\<rparr>) ?ds
             ''lognorm'' ''max'' ''mle'' =
           compute_frequency_curve (band_env\<lparr>pool_completion := ?c2\<rparr>) ?ds
             ''lognorm'' ''max'' ''mle''"
    using ok(1,2) by (rule fixed_seeds_give_identical_output)
  have 2: "compute_frequency_curve (band_env\<lparr>pool_completion := ?c2\<rparr>) ?ds
             ''lognorm'' ''max'' ''mle'' =
           compute_frequency_curve band_env ?ds ''lognorm'' ''max'' ''mle''"
    using fixed_seeds_give_identical_output [OF ok(2,3), of ?ds "''lognorm''" "''max''" "''mle''"]
    unfolding e .
  from band_run obtain qs r where qs: "qs \<noteq> []"
    and c: "compute_frequency_curve band_env ?ds ''lognorm'' ''max'' ''mle'' = Inr (Curve r)"
    and ci: "confidence_intervals r =
       Some \<lparr>lower = map (\<lambda>p. Point (PyFloat (Fin p)) (PyFloat (Fin 2))) qs,
             upper = map (\<lambda>p. Point (PyFloat (Fin p)) (PyFloat (Fin 3))) qs\<rparr>"
    by (elim exE conjE)
  let ?band = "\<lparr>lower = map (\<lambda>p. Point (PyFloat (Fin p)) (PyFloat (Fin 2))) qs,
                 upper = map (\<lambda>p. Point (PyFloat (Fin p)) (PyFloat (Fin 3))) qs\<rparr>"
  have l: "lower ?band \<noteq> []" and u: "upper ?band \<noteq> []" using qs by simp_all
  have "\<exists>r band.
      compute_frequency_curve (band_env\<lparr>pool_completion := ?c2\<rparr>) ?ds
        ''lognorm'' ''max'' ''mle'' = Inr (Curve r) \<and>
      confidence_intervals r = Some band \<and> lower band \<noteq> [] \<and> upper band \<noteq> []"
    unfolding 2 using c ci l u by (intro exI conjI)
  with 1 show ?thesis by (rule conjI)
qed


end
